theory Spec2Isabelle
  imports Complex_Main "HOL-Library.AList" "HOL-Library.Multiset"
begin

section \<open>Data shared by the scripts\<close>

text \<open>
  Exceptions are values. \<open>ValueError\<close>, \<open>KeyError\<close>, \<open>EmptyDataError\<close>,
  \<open>ParserError\<close> and \<open>UnicodeDecodeError\<close> are raised by the Python libraries the
  scripts call;
  \<open>ClientError\<close> stands for whatever the service SDK raises, with its message.
\<close>

datatype error =
    ValueError
  | KeyError
  | EmptyDataError
  | ParserError
  | UnicodeDecodeError
  | ClientError string

text \<open>
  A CSV file without header and index, as \<open>to_csv(header=False, index=False)\<close> writes a
  two-dimensional array and \<open>read_csv(header=None)\<close> reads it: the list of its rows, a row
  the list of its fields. Finite floating-point values are modelled by the real numbers
  they denote; the text form of a field is the library's.
\<close>

type_synonym csv = "real list list"

text \<open>Python's \<open>sep.join(xs)\<close>.\<close>

fun str_join :: "string \<Rightarrow> string list \<Rightarrow> string" where
  "str_join sep [] = []"
| "str_join sep [x] = x"
| "str_join sep (x # y # ys) = x @ sep @ str_join sep (y # ys)"

text \<open>Splitting a string at every character that is a separator, as \<open>str.split(sep)\<close>
  and \<open>re.split\<close> with a pattern of single characters do: \<open>n\<close> separators give
  \<open>n + 1\<close> pieces, empty ones included.\<close>

fun split_at :: "(char \<Rightarrow> bool) \<Rightarrow> string \<Rightarrow> string list" where
  "split_at sep [] = [[]]"
| "split_at sep (x # xs) =
     (if sep x then [] # split_at sep xs
      else (case split_at sep xs of
              w # ws \<Rightarrow> (x # w) # ws
            | [] \<Rightarrow> [[x]]))"

section \<open>code/preprocessing.py\<close>

subsection \<open>The schema of the input file\<close>

datatype dtype = Str | Float64

definition feature_columns_names :: "string list" where
  "feature_columns_names =
     [''sex'', ''length'', ''diameter'', ''height'', ''whole_weight'',
      ''shucked_weight'', ''viscera_weight'', ''shell_weight'']"

definition label_column :: string where
  "label_column = ''rings''"

definition feature_columns_dtype :: "(string \<times> dtype) list" where
  "feature_columns_dtype =
     [(''sex'', Str), (''length'', Float64), (''diameter'', Float64), (''height'', Float64),
      (''whole_weight'', Float64), (''shucked_weight'', Float64),
      (''viscera_weight'', Float64), (''shell_weight'', Float64)]"

definition label_column_dtype :: "(string \<times> dtype) list" where
  "label_column_dtype = [(''rings'', Float64)]"

text \<open>
  \<open>z = x.copy(); z.update(y)\<close>: a dict keeps insertion order, a key of \<open>y\<close> already in
  \<open>x\<close> keeps its place and takes the new value.
\<close>

definition merge_two_dicts :: "('k \<times> 'v) list \<Rightarrow> ('k \<times> 'v) list \<Rightarrow> ('k \<times> 'v) list" where
  "merge_two_dicts x y = fold (\<lambda>(k, v) z. AList.update k v z) y x"

text \<open>The keyword arguments of the script's \<open>pd.read_csv\<close> call.\<close>

record read_csv_args =
  header :: "nat option"
  names :: "string list"
  dtype :: "(string \<times> dtype) list"

definition input_read_csv_args :: read_csv_args where
  "input_read_csv_args =
     \<lparr>header = None,
      names = feature_columns_names @ [label_column],
      dtype = merge_two_dicts feature_columns_dtype label_column_dtype\<rparr>"

subsection \<open>The split points, in double precision\<close>

text \<open>
  \<open>int(0.7 * len(X))\<close> and \<open>int(0.85 * len(X))\<close> are computed by Python in IEEE-754
  binary64: the literal is the double nearest to the decimal, \<open>len(X)\<close> is converted to
  a double, the product is rounded to nearest (ties to even), and \<open>int\<close> truncates. All
  values met here are zero or normal doubles below \<open>2^117\<close>, so a double is modelled by a
  natural number counting units of \<open>2^-53\<close> (or units of 1 for the converted length),
  and rounding keeps the 53 leading bits.
\<close>

fun bit_length :: "nat \<Rightarrow> nat" where
  "bit_length n = (if n = 0 then 0 else Suc (bit_length (n div 2)))"

declare bit_length.simps [simp del]

definition round_to_53 :: "nat \<Rightarrow> nat" where
  "round_to_53 m =
     (let l = bit_length m in
      if l \<le> 53 then m
      else
        let s = l - 53;
            q = m div 2 ^ s;
            r = m mod 2 ^ s;
            half = 2 ^ (s - 1)
        in (if half < r \<or> (r = half \<and> odd q) then q + 1 else q) * 2 ^ s)"

text \<open>The doubles written \<open>0.7\<close> (0x1.6666666666666p-1) and \<open>0.85\<close>
  (0x1.b333333333333p-1), in units of \<open>2^-53\<close>.\<close>

definition float_0_7 :: nat where
  "float_0_7 = 6305039478318694"

definition float_0_85 :: nat where
  "float_0_85 = 7656119366529843"

text \<open>\<open>c * n\<close> for a double \<open>c\<close> (in units of \<open>2^-53\<close>) and a Python int \<open>n\<close>: the
  result again in units of \<open>2^-53\<close>.\<close>

definition float_mul_int :: "nat \<Rightarrow> nat \<Rightarrow> nat" where
  "float_mul_int c n = round_to_53 (c * round_to_53 n)"

text \<open>\<open>int(x)\<close> for a non-negative double \<open>x\<close> in units of \<open>2^-53\<close>.\<close>

definition int_of_float :: "nat \<Rightarrow> nat" where
  "int_of_float x = x div 2 ^ 53"

subsection \<open>The main block\<close>

text \<open>
  \<open>np.concatenate((a, b), axis=1)\<close> on two-dimensional arrays: the rows are joined
  pairwise, and arrays with different numbers of rows raise \<open>ValueError\<close>.
\<close>

definition np_concatenate_axis1 :: "'a list list \<Rightarrow> 'a list list \<Rightarrow> error + 'a list list" where
  "np_concatenate_axis1 a b =
     (if length a = length b then Inr (map2 (@) a b) else Inl ValueError)"

text \<open>
  \<open>np.split(ary, indices)\<close> with a list of indices: the slices \<open>ary[st:end]\<close> between
  consecutive division points \<open>[0] + indices + [len(ary)]\<close>.
\<close>

definition np_split :: "'a list \<Rightarrow> nat list \<Rightarrow> 'a list list" where
  "np_split ary indices =
     (let div_points = [0] @ indices @ [length ary]
      in map (\<lambda>(st, en). drop st (take en ary)) (zip div_points (tl div_points)))"

text \<open>The three files the script writes.\<close>

record split_files =
  train :: csv
  validation :: csv
  test :: csv

text \<open>
  The main block, from \<open>y = df.pop("rings")\<close> on. A row of the data frame is the pair of
  its eight feature fields and its \<open>rings\<close> field. The fitted scikit-learn transformer
  \<open>preprocess.fit_transform\<close> and the in-place \<open>np.random.shuffle\<close> are library code and
  are parameters. The unpacking \<open>train, validation, test = ...\<close> raises \<open>ValueError\<close>
  unless it gets three arrays.
\<close>

definition preprocessing_main ::
  "('f list \<Rightarrow> real list list) \<Rightarrow> (real list list \<Rightarrow> real list list) \<Rightarrow>
   ('f \<times> real) list \<Rightarrow> error + split_files" where
  "preprocessing_main fit_transform shuffle df =
     (let y = map snd df;
          df' = map fst df;
          X_pre = fit_transform df';
          y_pre = map (\<lambda>v. [v]) y
      in case np_concatenate_axis1 y_pre X_pre of
           Inl e \<Rightarrow> Inl e
         | Inr X0 \<Rightarrow>
             (let X = shuffle X0
              in case np_split X [int_of_float (float_mul_int float_0_7 (length X)),
                                  int_of_float (float_mul_int float_0_85 (length X))] of
                   [tr, va, te] \<Rightarrow> Inr \<lparr>train = tr, validation = va, test = te\<rparr>
                 | _ \<Rightarrow> Inl ValueError))"

text \<open>The array before the shuffle: every row is its label followed by its transformed
  features.\<close>

definition labelled_rows :: "('f list \<Rightarrow> real list list) \<Rightarrow> ('f \<times> real) list \<Rightarrow> real list list" where
  "labelled_rows fit_transform df = map2 (#) (map snd df) (fit_transform (map fst df))"

section \<open>code/evaluation.py\<close>

datatype json = JNumber real | JString string | JObject "(string \<times> json) list"

text \<open>
  \<open>pd.read_csv(test_path, header=None)\<close>: blank lines are skipped, and a file without
  any row raises \<open>EmptyDataError\<close>. The first row gives the number of columns; a later
  row with more fields raises \<open>ParserError\<close>, and a row with fewer fields is filled
  up with NaN. A cell of the frame is a value or NaN (\<open>None\<close>).
\<close>

definition read_csv_headerless :: "csv \<Rightarrow> error + real option list list" where
  "read_csv_headerless file =
     (case filter (\<lambda>r. r \<noteq> []) file of
        [] \<Rightarrow> Inl EmptyDataError
      | first # others \<Rightarrow>
          if list_ex (\<lambda>r. length first < length r) others then Inl ParserError
          else Inr (map (\<lambda>r. map Some r @ replicate (length first - length r) None)
                        (first # others)))"

text \<open>\<open>y_test = df.iloc[:, 0].to_numpy()\<close> and, after
  \<open>df.drop(df.columns[0], axis=1, inplace=True)\<close>, \<open>df.values\<close>.\<close>

definition label_and_features :: "'a list list \<Rightarrow> 'a list \<times> 'a list list" where
  "label_and_features df = (map hd df, map tl df)"

definition report_dict :: "real \<Rightarrow> real \<Rightarrow> json" where
  "report_dict mse std =
     JObject [(''regression_metrics'',
       JObject [(''mse'',
         JObject [(''value'', JNumber mse), (''standard_deviation'', JNumber std)])])]"

text \<open>
  The main block. The unpickled model's \<open>predict\<close>, \<open>sklearn.metrics.mean_squared_error\<close>
  and \<open>np.std\<close> are library code and are parameters; \<open>mean_squared_error\<close> raises
  \<open>ValueError\<close> when its two arguments differ in length, after which
  \<open>y_test - predictions\<close> is the elementwise difference (NaN where the label is NaN).
  The result is the file the script writes: its path and the JSON document dumped into
  it.
\<close>

definition evaluation_main ::
  "(real option list list \<Rightarrow> real list) \<Rightarrow> (real option list \<Rightarrow> real list \<Rightarrow> real) \<Rightarrow>
   (real option list \<Rightarrow> real) \<Rightarrow> csv \<Rightarrow> error + string \<times> json" where
  "evaluation_main predict mean_squared_error np_std test_csv =
     (case read_csv_headerless test_csv of
        Inl e \<Rightarrow> Inl e
      | Inr df \<Rightarrow>
          (let (y_test, X_test) = label_and_features df;
               predictions = predict X_test
           in if length y_test \<noteq> length predictions then Inl ValueError
              else
                let mse = mean_squared_error y_test predictions;
                    std = np_std (map2 (\<lambda>y p. map_option (\<lambda>v. v - p) y) y_test predictions);
                    output_dir = ''/opt/ml/processing/evaluation'';
                    evaluation_path = output_dir @ ''/evaluation.json''
                in Inr (evaluation_path, report_dict mse std)))"

section \<open>The pipeline definition\<close>

record parameter_float =
  param_name :: string
  default_value :: real

definition mse_threshold :: parameter_float where
  "mse_threshold = \<lparr>param_name = ''MseThreshold'', default_value = 6\<rparr>"

record property_file =
  property_name :: string
  output_name :: string
  path :: string

definition evaluation_report :: property_file where
  "evaluation_report =
     \<lparr>property_name = ''EvaluationReport'', output_name = ''evaluation'',
      path = ''evaluation.json''\<rparr>"

text \<open>\<open>Join(on, values)\<close>: a value is a literal or a pipeline parameter.\<close>

datatype join_value = JoinText string | JoinParam parameter_float

datatype join = Join string "join_value list"

record json_get =
  step_name :: string
  property_file :: property_file
  json_path :: string

datatype condition = ConditionLessThanOrEqualTo json_get parameter_float

text \<open>What a \<open>ModelStep\<close> is built from: \<open>model.create(...)\<close> or \<open>model.register(...)\<close>.\<close>

datatype model_step_args = ModelCreate | ModelRegister

text \<open>
  The steps, with the arguments the branch and the report depend on: a processing step
  has its outputs (name and container directory) and property files, a transform step
  names the step whose \<open>ModelName\<close> property it takes its model from.
\<close>

datatype step =
    ProcessingStep string "(string \<times> string) list" "property_file list"
  | TrainingStep string
  | ModelStep string model_step_args
  | TransformStep string string
  | FailStep string join
  | ConditionStep string "condition list" "step list" "step list"

fun name_of :: "step \<Rightarrow> string" where
  "name_of (ProcessingStep n _ _) = n"
| "name_of (TrainingStep n) = n"
| "name_of (ModelStep n _) = n"
| "name_of (TransformStep n _) = n"
| "name_of (FailStep n _) = n"
| "name_of (ConditionStep n _ _ _) = n"

definition step_process :: step where
  "step_process =
     ProcessingStep ''AbaloneProcess''
       [(''train'', ''/opt/ml/processing/train''),
        (''validation'', ''/opt/ml/processing/validation''),
        (''test'', ''/opt/ml/processing/test'')] []"

definition step_train :: step where
  "step_train = TrainingStep ''AbaloneTrain''"

definition step_eval :: step where
  "step_eval =
     ProcessingStep ''AbaloneEval''
       [(''evaluation'', ''/opt/ml/processing/evaluation'')] [evaluation_report]"

definition step_create_model :: step where
  "step_create_model = ModelStep ''AbaloneCreateModel'' ModelCreate"

definition step_transform :: step where
  "step_transform = TransformStep ''AbaloneTransform'' (name_of step_create_model)"

definition step_register :: step where
  "step_register = ModelStep ''AbaloneRegisterModel'' ModelRegister"

definition step_fail :: step where
  "step_fail =
     FailStep ''AbaloneMSEFail''
       (Join '' '' [JoinText ''Execution failed due to MSE >'', JoinParam mse_threshold])"

definition cond_lte :: condition where
  "cond_lte =
     ConditionLessThanOrEqualTo
       \<lparr>step_name = name_of step_eval, property_file = evaluation_report,
        json_path = ''regression_metrics.mse.value''\<rparr>
       mse_threshold"

definition step_cond :: step where
  "step_cond =
     ConditionStep ''AbaloneMSECond'' [cond_lte]
       [step_register, step_create_model, step_transform] [step_fail]"

definition pipeline_steps :: "step list" where
  "pipeline_steps = [step_process, step_train, step_eval, step_cond]"

fun if_steps :: "step \<Rightarrow> step list" where
  "if_steps (ConditionStep _ _ ifs _) = ifs"
| "if_steps _ = []"

fun else_steps :: "step \<Rightarrow> step list" where
  "else_steps (ConditionStep _ _ _ elses) = elses"
| "else_steps _ = []"

subsection \<open>An execution of the pipeline\<close>

text \<open>
  Modelled from the spec: the managed orchestrator that runs the submitted definition is
  an external service and is not part of the repository. The spec states its behaviour on
  this definition: the conditional step compares the computed MSE of the evaluation report
  with the threshold parameter and routes to the register branch when MSE \<open>\<le>\<close> threshold,
  else to the fail branch. An execution supplies the parameter values given at its start
  (a parameter without one takes its default) and the files each step's job has written,
  by step name and container path. A property file is found under the container directory
  of the output it names; a JSON path is a sequence of keys separated by dots; a condition
  step takes its \<open>if_steps\<close> when every condition holds and its \<open>else_steps\<close>
  otherwise, and its evaluation fails (\<open>None\<close>) when a value cannot be read.
\<close>

record execution =
  parameter_overrides :: "string \<rightharpoonup> real"
  job_files :: "string \<Rightarrow> string \<rightharpoonup> json"

definition parameter_value :: "execution \<Rightarrow> parameter_float \<Rightarrow> real" where
  "parameter_value ex p =
     (case parameter_overrides ex (param_name p) of
        Some v \<Rightarrow> v
      | None \<Rightarrow> default_value p)"

fun json_lookup :: "json \<Rightarrow> string list \<Rightarrow> json option" where
  "json_lookup j [] = Some j"
| "json_lookup (JObject kvs) (k # ks) =
     (case map_of kvs k of
        None \<Rightarrow> None
      | Some j \<Rightarrow> json_lookup j ks)"
| "json_lookup _ (k # ks) = None"

fun property_file_location :: "step \<Rightarrow> property_file \<Rightarrow> string option" where
  "property_file_location (ProcessingStep n outputs files) pf =
     (if pf \<in> set files
      then map_option (\<lambda>dir. dir @ ''/'' @ path pf) (map_of outputs (output_name pf))
      else None)"
| "property_file_location _ pf = None"

definition json_get_value :: "execution \<Rightarrow> step list \<Rightarrow> json_get \<Rightarrow> json option" where
  "json_get_value ex steps jg =
     (case find (\<lambda>s. name_of s = step_name jg) steps of
        None \<Rightarrow> None
      | Some s \<Rightarrow>
          (case property_file_location s (property_file jg) of
             None \<Rightarrow> None
           | Some file \<Rightarrow>
               (case job_files ex (name_of s) file of
                  None \<Rightarrow> None
                | Some doc \<Rightarrow> json_lookup doc (split_at (\<lambda>c. c = CHR ''.'') (json_path jg)))))"

fun condition_holds :: "execution \<Rightarrow> step list \<Rightarrow> condition \<Rightarrow> bool option" where
  "condition_holds ex steps (ConditionLessThanOrEqualTo left right) =
     (case json_get_value ex steps left of
        Some (JNumber v) \<Rightarrow> Some (v \<le> parameter_value ex right)
      | _ \<Rightarrow> None)"

fun all_hold :: "bool option list \<Rightarrow> bool option" where
  "all_hold [] = Some True"
| "all_hold (None # bs) = None"
| "all_hold (Some b # bs) = map_option (\<lambda>r. b \<and> r) (all_hold bs)"

fun branch_taken :: "execution \<Rightarrow> step list \<Rightarrow> step \<Rightarrow> step list option" where
  "branch_taken ex steps (ConditionStep n conditions ifs elses) =
     map_option (\<lambda>b. if b then ifs else elses)
       (all_hold (map (condition_holds ex steps) conditions))"
| "branch_taken ex steps _ = None"

text \<open>
  Modelled from the spec: the text of a \<open>Join\<close> at run time, as the orchestrator's
  failure step reports it: the values joined by the separator, a parameter by its value
  in the execution, formatted by the service (\<open>fmt\<close>).
\<close>

fun join_value_text :: "(real \<Rightarrow> string) \<Rightarrow> execution \<Rightarrow> join_value \<Rightarrow> string" where
  "join_value_text fmt ex (JoinText s) = s"
| "join_value_text fmt ex (JoinParam p) = fmt (parameter_value ex p)"

fun join_text :: "(real \<Rightarrow> string) \<Rightarrow> execution \<Rightarrow> join \<Rightarrow> string" where
  "join_text fmt ex (Join sep values) = str_join sep (map (join_value_text fmt ex) values)"

fun error_message :: "(real \<Rightarrow> string) \<Rightarrow> execution \<Rightarrow> step \<Rightarrow> string option" where
  "error_message fmt ex (FailStep n msg) = Some (join_text fmt ex msg)"
| "error_message fmt ex _ = None"

section \<open>The service, as the notebooks call it\<close>

text \<open>
  The calls the notebooks make through the SDK clients, with the arguments they pass, and
  what a call returns. \<open>SdkCall\<close> is any other call into the SDKs (a constructor, a
  session or S3 helper, \<open>pd.read_csv\<close> on an S3 address), by the name the notebook calls
  it by and the string literals among its arguments. \<open>Matches\<close> is the list under
  \<open>"Models"\<close>, \<open>"EndpointConfigs"\<close> or \<open>"Endpoints"\<close> of a list call (the names of the
  matching entities), \<open>EndpointStatus\<close> the field of that name of a describe call,
  \<open>Body\<close> a reply to an invoke call whose body reads as these bytes, \<open>BrokenBody\<close> a
  reply to an invoke call whose body raises when it is read, \<open>Done\<close> any other reply.
\<close>

record production_variant =
  VariantName :: string
  ModelName :: string
  MemorySizeInMB :: nat
  MaxConcurrency :: nat

datatype api_call =
    ListModels string
  | CreateModel string "string \<times> string" string
  | ListEndpointConfigs string
  | CreateEndpointConfig string "production_variant list"
  | ListEndpoints string
  | CreateEndpoint string string
  | DescribeEndpoint string
  | InvokeEndpoint string string string
  | DeleteModel string
  | DeleteEndpointConfig string
  | DeleteEndpoint string
  | PipelineUpsert string "step list" string
  | SdkCall string "string list"

datatype response =
    Matches "string list"
  | EndpointStatus string
  | Body string
  | BrokenBody error
  | Done

text \<open>
  The service is outside the program: \<open>sm i c\<close> is its answer to the call \<open>c\<close> when
  \<open>i\<close> calls have been made before it, an SDK exception or a reply. What a notebook does
  to the service is the list of calls it has made; the world also records what was
  printed and every \<open>time.sleep\<close>, in seconds.
\<close>

type_synonym service = "nat \<Rightarrow> api_call \<Rightarrow> error + response"

record world =
  calls :: "api_call list"
  stdout :: "string list"
  sleeps :: "nat list"

definition api :: "service \<Rightarrow> api_call \<Rightarrow> world \<Rightarrow> (error + response) \<times> world" where
  "api sm c w = (sm (length (calls w)) c, w\<lparr>calls := calls w @ [c]\<rparr>)"

definition print :: "string \<Rightarrow> world \<Rightarrow> world" where
  "print s w = w\<lparr>stdout := stdout w @ [s]\<rparr>"

definition time_sleep :: "nat \<Rightarrow> world \<Rightarrow> world" where
  "time_sleep secs w = w\<lparr>sleeps := sleeps w @ [secs]\<rparr>"

section \<open>sagemaker-serverless-demo.ipynb\<close>

definition model_uri :: string where
  "model_uri = ''s3://sagemaker-sample-files/models/xgb-fraud/fraud-det-xgb-model.tar.gz''"

definition model_name :: string where
  "model_name = ''fraud-detect-xgb''"

definition endpoint_config_name :: string where
  "endpoint_config_name = model_name @ ''-serverless-epconfig''"

definition endpoint_name :: string where
  "endpoint_name = model_name @ ''-serverless-ep''"

definition production_variant_dict :: production_variant where
  "production_variant_dict =
     \<lparr>VariantName = ''Alltraffic'', ModelName = model_name,
      MemorySizeInMB = 3072, MaxConcurrency = 1\<rparr>"

subsection \<open>The three cells that create an entity unless one is listed\<close>

text \<open>\<open>training_image\<close> (retrieved from the SDK) and \<open>sagemaker_role\<close> are values of the
  session. Indexing a reply by a key it does not have raises \<open>KeyError\<close>.\<close>

definition create_model_cell :: "service \<Rightarrow> string \<Rightarrow> string \<Rightarrow> world \<Rightarrow> (error + unit) \<times> world" where
  "create_model_cell sm training_image sagemaker_role w =
     (case api sm (ListModels model_name) w of
        (Inl e, w1) \<Rightarrow> (Inl e, w1)
      | (Inr (Matches model_matches), w1) \<Rightarrow>
          if model_matches = [] then
            (case api sm (CreateModel model_name (training_image, model_uri) sagemaker_role) w1 of
               (Inl e, w2) \<Rightarrow> (Inl e, w2)
             | (Inr model, w2) \<Rightarrow> (Inr (), w2))
          else
            (Inr (), print (''Model with name '' @ model_name @
                            '' already exists! Change model name to create new'') w1)
      | (Inr _, w1) \<Rightarrow> (Inl KeyError, w1))"

definition create_endpoint_config_cell :: "service \<Rightarrow> world \<Rightarrow> (error + unit) \<times> world" where
  "create_endpoint_config_cell sm w =
     (case api sm (ListEndpointConfigs endpoint_config_name) w of
        (Inl e, w1) \<Rightarrow> (Inl e, w1)
      | (Inr (Matches endpoint_config_matches), w1) \<Rightarrow>
          if endpoint_config_matches = [] then
            (case api sm (CreateEndpointConfig endpoint_config_name [production_variant_dict]) w1 of
               (Inl e, w2) \<Rightarrow> (Inl e, w2)
             | (Inr endpoint_config_response, w2) \<Rightarrow> (Inr (), w2))
          else
            (Inr (), print (''Endpoint config with name '' @ endpoint_config_name @
                            '' already exists! Change endpoint config name to create new'') w1)
      | (Inr _, w1) \<Rightarrow> (Inl KeyError, w1))"

text \<open>The first half of the third cell.\<close>

definition create_endpoint_part :: "service \<Rightarrow> world \<Rightarrow> (error + unit) \<times> world" where
  "create_endpoint_part sm w =
     (case api sm (ListEndpoints endpoint_name) w of
        (Inl e, w1) \<Rightarrow> (Inl e, w1)
      | (Inr (Matches endpoint_matches), w1) \<Rightarrow>
          if endpoint_matches = [] then
            (case api sm (CreateEndpoint endpoint_name endpoint_config_name) w1 of
               (Inl e, w2) \<Rightarrow> (Inl e, w2)
             | (Inr endpoint_response, w2) \<Rightarrow> (Inr (), w2))
          else
            (Inr (), print (''Endpoint with name '' @ endpoint_name @
                            '' already exists! Change endpoint name to create new'') w1)
      | (Inr _, w1) \<Rightarrow> (Inl KeyError, w1))"

subsection \<open>Waiting for the endpoint\<close>

text \<open>\<open>resp = sm_client.describe_endpoint(EndpointName=endpoint_name)\<close> followed by
  \<open>status = resp["EndpointStatus"]\<close>.\<close>

definition describe_status :: "service \<Rightarrow> world \<Rightarrow> (error + string) \<times> world" where
  "describe_status sm w =
     (case api sm (DescribeEndpoint endpoint_name) w of
        (Inl e, w1) \<Rightarrow> (Inl e, w1)
      | (Inr (EndpointStatus status), w1) \<Rightarrow> (Inr status, w1)
      | (Inr _, w1) \<Rightarrow> (Inl KeyError, w1))"

text \<open>What the notebook reads when the call it makes after \<open>i\<close> earlier calls is the
  describe call: an exception, or the status.\<close>

definition status_seen :: "service \<Rightarrow> nat \<Rightarrow> error + string" where
  "status_seen sm i =
     (case sm i (DescribeEndpoint endpoint_name) of
        Inl e \<Rightarrow> Inl e
      | Inr (EndpointStatus status) \<Rightarrow> Inr status
      | Inr _ \<Rightarrow> Inl KeyError)"

text \<open>The \<open>while status == "Creating"\<close> loop. It may run forever: not returning is
  \<open>None\<close>.\<close>

partial_function (option) while_creating ::
  "service \<Rightarrow> string \<Rightarrow> world \<Rightarrow> ((error + string) \<times> world) option" where
  "while_creating sm status w =
     (if status = ''Creating'' then
        (case describe_status sm
                (time_sleep 60 (print (''Endpoint Status: '' @ status @ ''...'') w)) of
           (Inl e, w1) \<Rightarrow> Some (Inl e, w1)
         | (Inr status', w1) \<Rightarrow> while_creating sm status' w1)
      else Some (Inr status, w))"

text \<open>The second half of the third cell: the first describe call, the loop and the final
  print.\<close>

definition wait_for_endpoint :: "service \<Rightarrow> world \<Rightarrow> ((error + string) \<times> world) option" where
  "wait_for_endpoint sm w =
     (case describe_status sm w of
        (Inl e, w1) \<Rightarrow> Some (Inl e, w1)
      | (Inr status, w1) \<Rightarrow>
          (case while_creating sm status w1 of
             None \<Rightarrow> None
           | Some (Inl e, w2) \<Rightarrow> Some (Inl e, w2)
           | Some (Inr status', w2) \<Rightarrow>
               Some (Inr status', print (''Endpoint Status: '' @ status') w2)))"

definition deploy_cell :: "service \<Rightarrow> world \<Rightarrow> ((error + string) \<times> world) option" where
  "deploy_cell sm w =
     (case create_endpoint_part sm w of
        (Inl e, w1) \<Rightarrow> Some (Inl e, w1)
      | (Inr _, w1) \<Rightarrow> wait_for_endpoint sm w1)"

subsection \<open>Invoking the endpoint\<close>

text \<open>
  A pandas data frame: its column labels and its rows, every row with one field per
  column. \<open>pd.read_csv\<close> makes the labels of the header row distinct.
\<close>

record 'c data_frame =
  columns :: "string list"
  rows :: "'c list list"

text \<open>\<open>df.drop(labels, axis=1)\<close>: a label that is not a column raises \<open>KeyError\<close>.\<close>

definition drop_columns :: "string list \<Rightarrow> 'c data_frame \<Rightarrow> error + 'c data_frame" where
  "drop_columns labels df =
     (if set labels \<subseteq> set (columns df) then
        Inr \<lparr>columns = filter (\<lambda>c. c \<notin> set labels) (columns df),
             rows = map (\<lambda>r. map snd (filter (\<lambda>(c, v). c \<notin> set labels) (zip (columns df) r)))
                        (rows df)\<rparr>
      else Inl KeyError)"

text \<open>\<open>df.iloc[:k]\<close>.\<close>

definition iloc_head :: "nat \<Rightarrow> 'c data_frame \<Rightarrow> 'c data_frame" where
  "iloc_head k df = df\<lparr>rows := take k (rows df)\<rparr>"

text \<open>\<open>df[label]\<close>, the values of one column.\<close>

definition get_column :: "string \<Rightarrow> 'c data_frame \<Rightarrow> error + 'c list" where
  "get_column label df =
     (if label \<in> set (columns df) then
        (case those (map (\<lambda>r. map_of (zip (columns df) r) label) (rows df)) of
           None \<Rightarrow> Inl KeyError
         | Some vs \<Rightarrow> Inr vs)
      else Inl KeyError)"

text \<open>\<open>df.to_csv(csv_file, sep=",", header=False, index=False)\<close>: one line per row, the
  fields as pandas formats them (\<open>fmt\<close>) separated by commas.\<close>

definition to_csv :: "('c \<Rightarrow> string) \<Rightarrow> 'c data_frame \<Rightarrow> string" where
  "to_csv fmt df = concat (map (\<lambda>r. str_join '','' (map fmt r) @ [CHR 0x0A]) (rows df))"

text \<open>\<open>re.split(",|\n", result)\<close>.\<close>

definition re_split_comma_newline :: "string \<Rightarrow> string list" where
  "re_split_comma_newline s = split_at (\<lambda>c. c = CHR '','' \<or> c = CHR 0x0A) s"

text \<open>
  The cell, after \<open>test_df = pd.read_csv(test_data_uri)\<close>. \<open>decode\<close> is
  \<open>bytes.decode("utf-8")\<close>, which raises \<open>UnicodeDecodeError\<close> on bytes that are not
  UTF-8; \<open>response["Body"].read()\<close> gives the bytes of the body or raises. Assigning
  the label column to a frame whose index has another length raises \<open>ValueError\<close>. The
  result is \<open>prediction_df\<close>, row by row.
\<close>

definition invoke_cell ::
  "service \<Rightarrow> ('c \<Rightarrow> string) \<Rightarrow> (string \<Rightarrow> error + string) \<Rightarrow> 'c data_frame \<Rightarrow> world \<Rightarrow>
   (error + (string \<times> 'c) list) \<times> world" where
  "invoke_cell sm fmt decode test_df w =
     (case drop_columns [''fraud''] test_df of
        Inl e \<Rightarrow> (Inl e, w)
      | Inr dropped \<Rightarrow>
          (let test_sample = iloc_head 5 dropped;
               payload = to_csv fmt test_sample
           in case api sm (InvokeEndpoint endpoint_name payload ''text/csv'') w of
                (Inl e, w1) \<Rightarrow> (Inl e, w1)
              | (Inr (Body result), w1) \<Rightarrow>
                  (case decode result of
                     Inl e \<Rightarrow> (Inl e, w1)
                   | Inr text \<Rightarrow>
                       (let prediction = take 5 (re_split_comma_newline text)
                        in case get_column ''fraud'' test_df of
                             Inl e \<Rightarrow> (Inl e, w1)
                           | Inr fraud \<Rightarrow>
                               (let label = take 5 fraud
                                in if length label = length prediction
                                   then (Inr (zip prediction label), w1)
                                   else (Inl ValueError, w1))))
              | (Inr (BrokenBody e), w1) \<Rightarrow> (Inl e, w1)
              | (Inr _, w1) \<Rightarrow> (Inl KeyError, w1)))"

subsection \<open>Deleting the model, the configuration and the endpoint\<close>

definition delete_cell :: "service \<Rightarrow> world \<Rightarrow> (error + unit) \<times> world" where
  "delete_cell sm w =
     (case api sm (DeleteModel model_name) w of
        (Inl e, w1) \<Rightarrow> (Inl e, w1)
      | (Inr _, w1) \<Rightarrow>
          (case api sm (DeleteEndpointConfig endpoint_config_name) w1 of
             (Inl e, w2) \<Rightarrow> (Inl e, w2)
           | (Inr _, w2) \<Rightarrow>
               (case api sm (DeleteEndpoint endpoint_name) w2 of
                  (Inl e, w3) \<Rightarrow> (Inl e, w3)
                | (Inr _, w3) \<Rightarrow> (Inr (), w3))))"

section \<open>Submitting the pipeline\<close>

text \<open>\<open>pipeline.upsert(role_arn=role)\<close>, the last cell of the pipeline notebook; the
  reply is the cell's value.\<close>

definition pipeline_name :: string where
  "pipeline_name = ''AbalonePipeline''"

definition upsert_cell :: "service \<Rightarrow> string \<Rightarrow> world \<Rightarrow> (error + response) \<times> world" where
  "upsert_cell sm role w = api sm (PipelineUpsert pipeline_name pipeline_steps role) w"

section \<open>The other SDK calls of the two notebooks\<close>

text \<open>
  A cell that is a sequence of statements, each one call (the arguments of a call are
  evaluated, left to right, before it): the calls are made in order, and the first
  exception ends the cell. The notebooks have no \<open>try\<close> statement and no loop but the
  polling loop.
\<close>

fun run_calls :: "service \<Rightarrow> api_call list \<Rightarrow> world \<Rightarrow> (error + unit) \<times> world" where
  "run_calls sm [] w = (Inr (), w)"
| "run_calls sm (c # cs) w =
     (case api sm c w of
        (Inl e, w1) \<Rightarrow> (Inl e, w1)
      | (Inr _, w1) \<Rightarrow> run_calls sm cs w1)"

subsection \<open>sagemaker-serverless-demo.ipynb\<close>

text \<open>The cell that creates the session and the three clients.\<close>

definition serverless_setup_cell :: "service \<Rightarrow> world \<Rightarrow> (error + unit) \<times> world" where
  "serverless_setup_cell sm w =
     run_calls sm
       [SdkCall ''sagemaker.Session'' [],
        SdkCall ''boto3.client'' [''s3''],
        SdkCall ''boto3.client'' [''sagemaker''],
        SdkCall ''boto3.client'' [''sagemaker-runtime''],
        SdkCall ''sagemaker.get_execution_role'' []] w"

text \<open>The whole cell that registers the model: \<open>retrieve(...)\<close> comes first, and
  \<open>training_image\<close> is what it returned.\<close>

definition model_cell :: "service \<Rightarrow> string \<Rightarrow> string \<Rightarrow> world \<Rightarrow> (error + unit) \<times> world" where
  "model_cell sm training_image sagemaker_role w =
     (case api sm (SdkCall ''retrieve'' [''xgboost'', ''1.3-1'']) w of
        (Inl e, w1) \<Rightarrow> (Inl e, w1)
      | (Inr _, w1) \<Rightarrow> create_model_cell sm training_image sagemaker_role w1)"

definition test_data_uri :: string where
  "test_data_uri =
     ''s3://sagemaker-sample-files/datasets/tabular/synthetic_automobile_claims/test.csv''"

text \<open>The whole cell that invokes the endpoint: \<open>pd.read_csv(test_data_uri)\<close> comes
  first, with the address the first cell puts together, and \<open>test_df\<close> is the frame it
  returned.\<close>

definition predict_cell ::
  "service \<Rightarrow> ('c \<Rightarrow> string) \<Rightarrow> (string \<Rightarrow> error + string) \<Rightarrow> 'c data_frame \<Rightarrow> world \<Rightarrow>
   (error + (string \<times> 'c) list) \<times> world" where
  "predict_cell sm fmt decode test_df w =
     (case api sm (SdkCall ''pd.read_csv'' [test_data_uri]) w of
        (Inl e, w1) \<Rightarrow> (Inl e, w1)
      | (Inr _, w1) \<Rightarrow> invoke_cell sm fmt decode test_df w1)"

subsection \<open>The pipeline notebook\<close>

text \<open>The two cells that fetch a dataset and upload it; \<open>uri\<close> is what the upload
  returned, which the cell prints.\<close>

definition upload_input_cell :: "service \<Rightarrow> string \<Rightarrow> world \<Rightarrow> (error + unit) \<times> world" where
  "upload_input_cell sm input_data_uri w =
     (case run_calls sm
             [SdkCall ''boto3.resource'' [''s3''],
              SdkCall ''s3.Bucket'' [],
              SdkCall ''download_file'' [''datasets/tabular/uci_abalone/abalone.csv''],
              SdkCall ''sagemaker.s3.S3Uploader.upload'' []] w of
        (Inl e, w1) \<Rightarrow> (Inl e, w1)
      | (Inr _, w1) \<Rightarrow> (Inr (), print input_data_uri w1))"

definition upload_batch_cell :: "service \<Rightarrow> string \<Rightarrow> world \<Rightarrow> (error + unit) \<times> world" where
  "upload_batch_cell sm batch_data_uri w =
     (case run_calls sm
             [SdkCall ''boto3.resource'' [''s3''],
              SdkCall ''s3.Bucket'' [],
              SdkCall ''download_file'' [''dataset/abalone-dataset-batch''],
              SdkCall ''sagemaker.s3.S3Uploader.upload'' []] w of
        (Inl e, w1) \<Rightarrow> (Inl e, w1)
      | (Inr _, w1) \<Rightarrow> (Inr (), print batch_data_uri w1))"

text \<open>The other code cells that call the SDK, in the order of the notebook, each with its
  calls in the order they are made; the last cell, \<open>pipeline.upsert\<close>, is above.
  Reading an attribute of an SDK object (a session's region, a step's name or
  properties) and formatting a string are not calls; shell commands and
  \<open>%%writefile\<close> cells do not call the SDK.\<close>

definition pipeline_code_cells :: "api_call list list" where
  "pipeline_code_cells =
     [[SdkCall ''sagemaker.session.Session'' [],
       SdkCall ''sagemaker.get_execution_role'' [],
       SdkCall ''PipelineSession'' [],
       SdkCall ''sagemaker_session.default_bucket'' []],
      [SdkCall ''ParameterInteger'' [''ProcessingInstanceCount''],
       SdkCall ''ParameterString'' [''TrainingInstanceType'', ''ml.m5.large''],
       SdkCall ''ParameterString'' [''ModelApprovalStatus'', ''PendingManualApproval''],
       SdkCall ''ParameterString'' [''InputData''],
       SdkCall ''ParameterString'' [''BatchData''],
       SdkCall ''ParameterFloat'' [''MseThreshold'']],
      [SdkCall ''SKLearnProcessor'' [''ml.m5.large'', ''sklearn-abalone-process'']],
      [SdkCall ''ProcessingInput'' [''/opt/ml/processing/input''],
       SdkCall ''ProcessingOutput'' [''train'', ''/opt/ml/processing/train''],
       SdkCall ''ProcessingOutput'' [''validation'', ''/opt/ml/processing/validation''],
       SdkCall ''ProcessingOutput'' [''test'', ''/opt/ml/processing/test''],
       SdkCall ''sklearn_processor.run'' [''code/preprocessing.py''],
       SdkCall ''ProcessingStep'' [''AbaloneProcess'']],
      [SdkCall ''sagemaker.image_uris.retrieve'' [''xgboost'', ''1.0-1'', ''py3'', ''ml.m5.large''],
       SdkCall ''Estimator'' [],
       SdkCall ''xgb_train.set_hyperparameters'' [''reg:linear''],
       SdkCall ''TrainingInput'' [''train'', ''text/csv''],
       SdkCall ''TrainingInput'' [''validation'', ''text/csv''],
       SdkCall ''xgb_train.fit'' [''train'', ''validation'']],
      [SdkCall ''TrainingStep'' [''AbaloneTrain'']],
      [SdkCall ''ScriptProcessor'' [''python3'', ''ml.m5.xlarge'', ''script-abalone-eval''],
       SdkCall ''ProcessingInput'' [''/opt/ml/processing/model''],
       SdkCall ''ProcessingInput'' [''test'', ''/opt/ml/processing/test''],
       SdkCall ''ProcessingOutput'' [''evaluation'', ''/opt/ml/processing/evaluation''],
       SdkCall ''script_eval.run'' [''code/evaluation.py'']],
      [SdkCall ''PropertyFile'' [''EvaluationReport'', ''evaluation'', ''evaluation.json''],
       SdkCall ''ProcessingStep'' [''AbaloneEval'']],
      [SdkCall ''Model'' []],
      [SdkCall ''model.create'' [''ml.m5.large'', ''ml.eia1.medium''],
       SdkCall ''ModelStep'' [''AbaloneCreateModel'']],
      [SdkCall ''Transformer'' [''ml.m5.large'']],
      [SdkCall ''TransformInput'' [],
       SdkCall ''TransformStep'' [''AbaloneTransform'']],
      [SdkCall ''Model'' []],
      [SdkCall ''MetricsSource'' [''{}/evaluation.json'', ''application/json''],
       SdkCall ''ModelMetrics'' [],
       SdkCall ''model.register'' [''text/csv'', ''text/csv'', ''ml.t2.medium'', ''ml.m5.large'',
                                   ''ml.m5.large''],
       SdkCall ''ModelStep'' [''AbaloneRegisterModel'']],
      [SdkCall ''Join'' ['' '', ''Execution failed due to MSE >''],
       SdkCall ''FailStep'' [''AbaloneMSEFail'']],
      [SdkCall ''JsonGet'' [''regression_metrics.mse.value''],
       SdkCall ''ConditionLessThanOrEqualTo'' [],
       SdkCall ''ConditionStep'' [''AbaloneMSECond'']],
      [SdkCall ''Pipeline'' []]]"

section \<open>What it means that SDK errors surface\<close>

text \<open>
  A run of a cell from the world \<open>w\<close> that ended with the outcome \<open>r\<close> in the world
  \<open>w'\<close> lets SDK errors surface when every call it made that the service answered with
  an exception is the last call it made, and that exception is the outcome: the
  exception was not caught or replaced, no call was repeated and none followed.
\<close>

definition sdk_errors_surface :: "service \<Rightarrow> world \<Rightarrow> (error + 'a) \<times> world \<Rightarrow> bool" where
  "sdk_errors_surface sm w out =
     (case out of (r, w') \<Rightarrow>
        (\<exists>cs. calls w' = calls w @ cs \<and>
              (\<forall>i<length cs. \<forall>e. sm (length (calls w) + i) (cs ! i) = Inl e \<longrightarrow>
                  r = Inl e \<and> Suc i = length cs)))"

section \<open>Properties of the preprocessing script\<close>

text \<open>
  C5. The input is read as a CSV file without header row (\<open>header=None\<close>) whose columns
  are named, in order, by the eight feature names sex, length, diameter, height,
  whole_weight, shucked_weight, viscera_weight, shell_weight and then the label rings;
  sex is read as a string and each of the other eight columns as a 64-bit float.
\<close>

theorem input_schema:
  "header input_read_csv_args = None
   \<and> length feature_columns_names = 8
   \<and> distinct (names input_read_csv_args)
   \<and> names input_read_csv_args =
       [''sex'', ''length'', ''diameter'', ''height'', ''whole_weight'',
        ''shucked_weight'', ''viscera_weight'', ''shell_weight'', ''rings'']
   \<and> map fst (dtype input_read_csv_args) = names input_read_csv_args
   \<and> map (map_of (dtype input_read_csv_args)) (names input_read_csv_args) =
       Some Str # replicate 8 (Some Float64)"
  by (simp add: input_read_csv_args_def feature_columns_names_def label_column_def
      feature_columns_dtype_def label_column_dtype_def merge_two_dicts_def
      numeral_eq_Suc)

subsection \<open>The double-precision split points\<close>

text \<open>The two constants are the doubles nearest to 0.7 and 0.85: normal, with 53
  significant bits, and within half a unit of the decimal.\<close>

lemma doubles_nearest: "\<bar>10 * int float_0_7 - 7 * 2 ^ 53\<bar> \<le> 5 \<and> \<bar>20 * int float_0_85 - 17 * 2 ^ 53\<bar> \<le> 10
   \<and> 2 ^ 52 \<le> float_0_7 \<and> float_0_85 < 2 ^ 53"
  by (simp add: float_0_7_def float_0_85_def)


text \<open>A positive number lies between the powers of two its bit length gives.\<close>

lemma bit_length_bounds: "0 < n \<Longrightarrow> 2 ^ (bit_length n - 1) \<le> n \<and> n < 2 ^ bit_length n"
proof (induction n rule: bit_length.induct)
  case (1 n)
  show ?case
  proof (cases "n div 2 = 0")
    case True
    with 1 have "n = 1" by (simp add: div_eq_0_iff) 
    then show ?thesis by (simp add: bit_length.simps)
  next
    case False
    then have pos: "0 < n div 2" by simp
    with 1 have ih: "2 ^ (bit_length (n div 2) - 1) \<le> n div 2 \<and> n div 2 < 2 ^ bit_length (n div 2)"
      by simp
    have bl: "bit_length n = Suc (bit_length (n div 2))" using 1(2) by (simp add: bit_length.simps)
    have blpos: "0 < bit_length (n div 2)" using pos by (simp add: bit_length.simps)
    then obtain k where k: "bit_length (n div 2) = Suc k" by (cases "bit_length (n div 2)") auto
    show ?thesis using ih unfolding bl k by simp linarith
  qed
qed

text \<open>Rounding to 53 bits changes a number by at most one part in \<open>2^53\<close>.\<close>

lemma round_to_53_error:
  "m * 9007199254740991 \<le> round_to_53 m * 9007199254740992
   \<and> round_to_53 m * 9007199254740992 \<le> m * 9007199254740993"
proof (cases "bit_length m \<le> 53")
  case True
  then show ?thesis by (simp add: round_to_53_def)
next
  case False
  define s where "s = bit_length m - 53"
  define q where "q = m div 2 ^ s"
  define r where "r = m mod 2 ^ s"
  define h :: nat where "h = 2 ^ (s - 1)"
  have spos: "0 < s" using False by (simp add: s_def)
  have mpos: "0 < m" using False by (cases "m = 0") (simp_all add: bit_length.simps)
  have two_h: "2 ^ s = 2 * h" using spos by (cases s) (simp_all add: h_def)
  have m_eq: "m = q * (2 * h) + r"
    using div_mult_mod_eq [of m "2 ^ s"] unfolding q_def r_def two_h by simp
  have r_lt: "r < 2 * h" unfolding r_def two_h [symmetric] by simp
  have "bit_length m - 1 = (s - 1) + 53" using False by (simp add: s_def)
  with bit_length_bounds [OF mpos] have "(2::nat) ^ ((s - 1) + 53) \<le> m" by simp
  then have h_le: "h * 9007199254740992 \<le> m" by (simp add: h_def power_add)
  have R0: "round_to_53 m = (if h < r \<or> (r = h \<and> odd q) then q + 1 else q) * 2 ^ s"
    using False unfolding round_to_53_def Let_def s_def q_def r_def h_def by simp
  have R: "round_to_53 m = (if h < r \<or> (r = h \<and> odd q) then q + 1 else q) * (2 * h)"
    using R0 unfolding two_h .
  show ?thesis
  proof (cases "h < r \<or> (r = h \<and> odd q)")
    case True
    then have hr: "h \<le> r" by auto
    have "round_to_53 m = q * (2 * h) + 2 * h" using True R by (auto simp: algebra_simps)
    with m_eq hr r_lt h_le show ?thesis by linarith
  next
    case False
    then have hr: "r \<le> h" by auto
    have "round_to_53 m = q * (2 * h)" using False R by auto
    with m_eq hr h_le show ?thesis by linarith
  qed
qed


lemma train_end_le: "int_of_float (float_mul_int float_0_7 n) \<le> int_of_float (float_mul_int float_0_85 n)"
proof -
  define n' where "n' = round_to_53 n"
  define P where "P = round_to_53 (float_0_7 * n')"
  define Q where "Q = round_to_53 (float_0_85 * n')"
  have a: "P * 9007199254740992 \<le> (float_0_7 * n') * 9007199254740993"
    unfolding P_def using round_to_53_error by blast
  have b: "(float_0_85 * n') * 9007199254740991 \<le> Q * 9007199254740992"
    unfolding Q_def using round_to_53_error by blast
  have "P \<le> Q" using a b unfolding float_0_7_def float_0_85_def by linarith
  then show ?thesis
    by (simp add: int_of_float_def float_mul_int_def P_def [symmetric] Q_def [symmetric] n'_def [symmetric] div_le_mono)
qed

lemma split_points_3: "int_of_float (float_mul_int float_0_7 3) = 2 \<and> int_of_float (float_mul_int float_0_85 3) = 2"
  by (simp add: int_of_float_def float_mul_int_def float_0_7_def float_0_85_def round_to_53_def bit_length.simps Let_def)



subsection \<open>The three files\<close>

lemma np_split_two:
  "np_split xs [i, j] = [take i xs, drop i (take j xs), drop j xs]"
  by (simp add: np_split_def)

lemma split_parts_append:
  assumes "i \<le> j"
  shows "take i xs @ drop i (take j xs) @ drop j xs = xs"
proof -
  have "take i xs = take i (take j xs)" using assms by (simp add: min_def)
  then have "take i xs @ drop i (take j xs) = take j xs"
    by (metis append_take_drop_id)
  then show ?thesis by (metis append.assoc append_take_drop_id)
qed

lemma concatenate_labelled:
  "length (ft (map fst df)) = length df \<Longrightarrow>
   np_concatenate_axis1 (map (\<lambda>v. [v]) (map snd df)) (ft (map fst df)) = Inr (labelled_rows ft df)"
  by (simp add: np_concatenate_axis1_def labelled_rows_def zip_map1 map_prod_def split_def)

lemma concatenate_Inr:
  "np_concatenate_axis1 (map (\<lambda>v. [v]) (map snd df)) (ft (map fst df)) = Inr X \<Longrightarrow>
   length (ft (map fst df)) = length df \<and> X = labelled_rows ft df"
  by (auto simp: np_concatenate_axis1_def labelled_rows_def zip_map1 split_def split: if_splits)


lemma preprocessing_main_eq:
  assumes "length (ft (map fst df)) = length df"
  shows "preprocessing_main ft sh df =
     Inr \<lparr>train = take (int_of_float (float_mul_int float_0_7 (length (sh (labelled_rows ft df))))) (sh (labelled_rows ft df)),
          validation = drop (int_of_float (float_mul_int float_0_7 (length (sh (labelled_rows ft df)))))
                         (take (int_of_float (float_mul_int float_0_85 (length (sh (labelled_rows ft df))))) (sh (labelled_rows ft df))),
          test = drop (int_of_float (float_mul_int float_0_85 (length (sh (labelled_rows ft df))))) (sh (labelled_rows ft df))\<rparr>"
  unfolding preprocessing_main_def Let_def concatenate_labelled [where ft = ft and df = df, OF assms] np_split_two
  by simp






subsection \<open>The row layout shared with the evaluation script\<close>

lemma labelled_rows_nth:
  assumes "length (ft (map fst df)) = length df" and "row \<in> set (labelled_rows ft df)"
  shows "\<exists>i<length df. row = snd (df ! i) # ft (map fst df) ! i"
proof -
  from assms(2) obtain i where i: "i < length (labelled_rows ft df)"
    and row: "row = labelled_rows ft df ! i"
    by (auto simp: in_set_conv_nth)
  from i assms(1) have "i < length df" by (simp add: labelled_rows_def)
  moreover from this assms(1) row have "row = snd (df ! i) # ft (map fst df) ! i"
    by (simp add: labelled_rows_def)
  ultimately show ?thesis by blast
qed

lemma split_files_rows:
  assumes perm: "\<And>xs. mset (sh xs) = mset xs"
      and shape: "length (ft (map fst df)) = length df"
  shows "\<exists>out. preprocessing_main ft sh df = Inr out
           \<and> set (train out) \<union> set (validation out) \<union> set (test out) = set (labelled_rows ft df)"
proof -
  define X where "X = sh (labelled_rows ft df)"
  define i where "i = int_of_float (float_mul_int float_0_7 (length X))"
  define j where "j = int_of_float (float_mul_int float_0_85 (length X))"
  define out where "out = \<lparr>train = take i X, validation = drop i (take j X), test = drop j X\<rparr>"
  have run: "preprocessing_main ft sh df = Inr out"
    unfolding preprocessing_main_eq [where ft = ft and df = df, OF shape] out_def X_def i_def j_def ..
  have "i \<le> j" unfolding i_def j_def by (rule train_end_le)
  then have "train out @ validation out @ test out = X"
    unfolding out_def using split_parts_append by simp
  then have "set (train out) \<union> set (validation out) \<union> set (test out) = set X"
    by (metis set_append Un_assoc)
  also have "\<dots> = set (labelled_rows ft df)"
    unfolding X_def using perm by (metis set_mset_mset)
  finally show ?thesis using run by blast
qed

lemma read_csv_headerless_rows:
  assumes "filter (\<lambda>r. r \<noteq> []) file = first # others"
      and "\<forall>r \<in> set others. length r \<le> length first"
  shows "read_csv_headerless file =
           Inr (map (\<lambda>r. map Some r @ replicate (length first - length r) None) (first # others))"
  using assms by (simp add: read_csv_headerless_def list_ex_iff not_less)

lemma read_csv_headerless_too_long:
  assumes "filter (\<lambda>r. r \<noteq> []) file = first # others"
      and "r \<in> set others" and "length first < length r"
  shows "read_csv_headerless file = Inl ParserError"
  using assms by (auto simp: read_csv_headerless_def list_ex_iff)

lemma read_csv_headerless_array:
  assumes nonblank: "\<forall>r \<in> set content. r \<noteq> []"
      and width: "\<forall>r \<in> set content. length r = m"
  shows "read_csv_headerless content =
           (if content = [] then Inl EmptyDataError else Inr (map (map Some) content))"
proof (cases content)
  case Nil
  then show ?thesis by (simp add: read_csv_headerless_def)
next
  case (Cons first others)
  from nonblank have keep: "filter (\<lambda>r. r \<noteq> []) content = content"
    by (simp add: filter_id_conv)
  from width Cons have same: "\<forall>r \<in> set (first # others). length r = length first"
    by simp
  then have "\<forall>r \<in> set others. length r \<le> length first" by simp
  with keep Cons have "read_csv_headerless content =
      Inr (map (\<lambda>r. map Some r @ replicate (length first - length r) None) (first # others))"
    by (intro read_csv_headerless_rows) simp_all
  also have "map (\<lambda>r. map Some r @ replicate (length first - length r) None) (first # others)
             = map (map Some) (first # others)"
    using same by (intro map_cong refl) auto
  finally show ?thesis using Cons by simp
qed

lemma label_and_features_Some:
  assumes "\<forall>r \<in> set xss. r \<noteq> []"
  shows "label_and_features (map (map Some) xss) =
           (map Some (fst (label_and_features xss)),
            map (map Some) (snd (label_and_features xss)))"
  using assms by (simp add: label_and_features_def hd_map map_tl)

text \<open>
  C10. Every row the preprocessing script writes to the train, validation and test files
  is the label (rings) of a row of the input followed by the transformed features of the
  same row. When the transformer returns a two-dimensional array (rows of one width),
  the evaluation script reads the test file back as it was written (every row is
  non-empty and of the same width, so none is skipped, refused or filled up); it takes
  column 0 as the label and the remaining columns as the features, and so pairs every
  label with the features of its own row.
\<close>

theorem label_first_layout:
  assumes perm: "\<And>xs. mset (shuffle xs) = mset xs"
      and shape: "length (fit_transform (map fst df)) = length df"
  shows "\<exists>out. preprocessing_main fit_transform shuffle df = Inr out
           \<and> (\<forall>row \<in> set (train out) \<union> set (validation out) \<union> set (test out).
                 \<exists>i<length df. row = snd (df ! i) # fit_transform (map fst df) ! i)
           \<and> ((\<forall>r \<in> set (fit_transform (map fst df)). length r = width) \<longrightarrow>
                read_csv_headerless (test out) =
                  (if test out = [] then Inl EmptyDataError
                   else Inr (map (map Some) (test out))))
           \<and> (\<forall>k<length (test out). \<exists>i<length df.
                 fst (label_and_features (test out)) ! k = snd (df ! i)
                 \<and> snd (label_and_features (test out)) ! k = fit_transform (map fst df) ! i)
           \<and> label_and_features (map (map Some) (test out)) =
                 (map Some (fst (label_and_features (test out))),
                  map (map Some) (snd (label_and_features (test out))))"
proof -
  from split_files_rows [where ft = fit_transform and sh = shuffle and df = df, OF perm shape]
  obtain out where run: "preprocessing_main fit_transform shuffle df = Inr out"
    and rows: "set (train out) \<union> set (validation out) \<union> set (test out)
               = set (labelled_rows fit_transform df)"
    by blast
  have layout: "\<exists>i<length df. row = snd (df ! i) # fit_transform (map fst df) ! i"
    if "row \<in> set (train out) \<union> set (validation out) \<union> set (test out)" for row
    using that rows labelled_rows_nth [where ft = fit_transform and df = df, OF shape] by blast
  have nonempty: "\<forall>row \<in> set (test out). row \<noteq> []"
    using layout by fastforce
  have rd: "read_csv_headerless (test out) =
                (if test out = [] then Inl EmptyDataError else Inr (map (map Some) (test out)))"
    if array: "\<forall>r \<in> set (fit_transform (map fst df)). length r = width"
  proof -
    have "\<forall>row \<in> set (test out). length row = Suc width"
    proof
      fix row assume "row \<in> set (test out)"
      then have "row \<in> set (train out) \<union> set (validation out) \<union> set (test out)" by simp
      from layout [OF this] obtain i where i: "i < length df"
        and row: "row = snd (df ! i) # fit_transform (map fst df) ! i" by blast
      from i shape have "fit_transform (map fst df) ! i \<in> set (fit_transform (map fst df))"
        by simp
      with array row show "length row = Suc width" by simp
    qed
    with nonempty show ?thesis by (rule read_csv_headerless_array)
  qed
  have ev: "\<exists>i<length df.
                 fst (label_and_features (test out)) ! k = snd (df ! i)
                 \<and> snd (label_and_features (test out)) ! k = fit_transform (map fst df) ! i"
    if k: "k < length (test out)" for k
  proof -
    from k have "test out ! k \<in> set (train out) \<union> set (validation out) \<union> set (test out)"
      by simp
    from layout [OF this] obtain i where "i < length df"
      and "test out ! k = snd (df ! i) # fit_transform (map fst df) ! i" by blast
    with k show ?thesis by (auto simp: label_and_features_def)
  qed
  from run layout rd ev label_and_features_Some [OF nonempty] show ?thesis by blast
qed

theorem label_first_layout_witness:
  "\<exists>out. preprocessing_main (map (\<lambda>f. [f])) rev [(1, 10), (2, 20), (3, 30)] = Inr out
     \<and> test out = [[10, 1]] 
     \<and> read_csv_headerless (test out) = Inr [[Some 10, Some 1]]
     \<and> label_and_features (test out) = ([10], [[1]])
     \<and> label_and_features [[Some 10, Some (1::real)]] = ([Some 10], [[Some 1]])"
  using label_first_layout [of rev "map (\<lambda>f. [f])" "[(1, 10), (2, 20), (3, 30)]" 1]
  by (auto simp add: preprocessing_main_eq split_points_3 [unfolded numeral_3_eq_3] labelled_rows_def
      label_and_features_def read_csv_headerless_def)

subsection \<open>The evaluation report\<close>

lemma json_path_keys:
  "split_at (\<lambda>c. c = CHR ''.'') ''regression_metrics.mse.value''
     = [''regression_metrics'', ''mse'', ''value'']"
  by simp

lemma report_location:
  "property_file_location step_eval evaluation_report
     = Some ''/opt/ml/processing/evaluation/evaluation.json''"
  by (simp add: step_eval_def evaluation_report_def)

lemma report_value_read:
  assumes "job_files ex ''AbaloneEval'' ''/opt/ml/processing/evaluation/evaluation.json''
             = Some (report_dict mse std)"
  shows "json_get_value ex pipeline_steps
           \<lparr>step_name = name_of step_eval, property_file = evaluation_report,
            json_path = ''regression_metrics.mse.value''\<rparr> = Some (JNumber mse)"
proof -
  have found: "find (\<lambda>s. name_of s = ''AbaloneEval'') pipeline_steps = Some step_eval"
    by (simp add: pipeline_steps_def step_process_def step_train_def step_eval_def)
  have name: "name_of step_eval = ''AbaloneEval''" by (simp add: step_eval_def)
  show ?thesis
    unfolding json_get_value_def
    by (simp add: found report_location name assms json_path_keys report_dict_def)
qed

lemma evaluation_main_parser_error:
  assumes "filter (\<lambda>r. r \<noteq> []) test_csv = first # others"
      and "r \<in> set others" and "length first < length r"
  shows "evaluation_main predict mean_squared_error np_std test_csv = Inl ParserError"
  using read_csv_headerless_too_long [OF assms] by (simp add: evaluation_main_def)

text \<open>
  C2. Whenever the test file has a row, no later row has more fields than the first
  (shorter rows are filled up with NaN) and the model predicts one value per row, the
  evaluation script writes one JSON document, to
  \<open>/opt/ml/processing/evaluation/evaluation.json\<close>, that is exactly the object with the
  single key \<open>regression_metrics\<close>, under it the single key \<open>mse\<close>, and under that the
  two keys \<open>value\<close> and \<open>standard_deviation\<close>: \<open>value\<close> is \<open>mean_squared_error\<close> of
  the labels in column 0 of the test file and the model's predictions on the remaining
  columns, \<open>standard_deviation\<close> is \<open>np.std\<close> of labels minus predictions. The
  condition's \<open>JsonGet\<close> names the path \<open>regression_metrics.mse.value\<close> in the property
  file \<open>evaluation.json\<close> of the evaluation step's output, which is the file the script
  wrote, and reading that path there gives \<open>value\<close>.
\<close>

theorem evaluation_report_layout:
  assumes lines: "filter (\<lambda>r. r \<noteq> []) test_csv = first # others"
      and fields: "\<forall>r \<in> set others. length r \<le> length first"
      and frame: "df = map (\<lambda>r. map Some r @ replicate (length first - length r) None)
                           (first # others)"
      and preds: "length (predict (map tl df)) = length df"
      and wrote: "job_files ex ''AbaloneEval'' =
                    (case evaluation_main predict mean_squared_error np_std test_csv of
                       Inl e \<Rightarrow> Map.empty
                     | Inr (file, doc) \<Rightarrow> [file \<mapsto> doc])"
  shows "\<exists>y_test predictions.
           read_csv_headerless test_csv = Inr df
           \<and> y_test = map hd df
           \<and> y_test = map (\<lambda>r. Some (hd r)) (first # others)
           \<and> predictions = predict (map tl df)
           \<and> evaluation_main predict mean_squared_error np_std test_csv =
               Inr (''/opt/ml/processing/evaluation/evaluation.json'',
                    JObject [(''regression_metrics'',
                      JObject [(''mse'',
                        JObject [(''value'', JNumber (mean_squared_error y_test predictions)),
                                 (''standard_deviation'',
                                  JNumber (np_std (map2 (\<lambda>y p. map_option (\<lambda>v. v - p) y)
                                                        y_test predictions)))])])])
           \<and> cond_lte = ConditionLessThanOrEqualTo
                 \<lparr>step_name = ''AbaloneEval'', property_file = evaluation_report,
                  json_path = ''regression_metrics.mse.value''\<rparr> mse_threshold
           \<and> json_get_value ex pipeline_steps
                 \<lparr>step_name = ''AbaloneEval'', property_file = evaluation_report,
                  json_path = ''regression_metrics.mse.value''\<rparr>
               = Some (JNumber (mean_squared_error y_test predictions))"
proof -
  define y_test where "y_test = map hd df"
  define predictions where "predictions = predict (map tl df)"
  have rd: "read_csv_headerless test_csv = Inr df"
    unfolding frame using lines fields by (rule read_csv_headerless_rows)
  have nonblank: "\<forall>r \<in> set (first # others). r \<noteq> []"
  proof
    fix r assume "r \<in> set (first # others)"
    then have "r \<in> set (filter (\<lambda>r. r \<noteq> []) test_csv)" unfolding lines .
    then show "r \<noteq> []" by simp
  qed
  have labels: "y_test = map (\<lambda>r. Some (hd r)) (first # others)"
    unfolding y_test_def frame map_map
    using nonblank by (intro map_cong refl) (auto simp: hd_append hd_map)
  have len: "length y_test = length predictions"
    using preds by (simp add: y_test_def predictions_def)
  have run: "evaluation_main predict mean_squared_error np_std test_csv =
               Inr (''/opt/ml/processing/evaluation/evaluation.json'',
                    report_dict (mean_squared_error y_test predictions)
                      (np_std (map2 (\<lambda>y p. map_option (\<lambda>v. v - p) y) y_test predictions)))"
    unfolding evaluation_main_def rd label_and_features_def
    using len by (simp add: y_test_def predictions_def Let_def)
  have name: "name_of step_eval = ''AbaloneEval''" by (simp add: step_eval_def)
  have files: "job_files ex ''AbaloneEval'' ''/opt/ml/processing/evaluation/evaluation.json''
                 = Some (report_dict (mean_squared_error y_test predictions)
                      (np_std (map2 (\<lambda>y p. map_option (\<lambda>v. v - p) y) y_test predictions)))"
    unfolding wrote run by simp
  have cond: "cond_lte = ConditionLessThanOrEqualTo
                 \<lparr>step_name = ''AbaloneEval'', property_file = evaluation_report,
                  json_path = ''regression_metrics.mse.value''\<rparr> mse_threshold"
    by (simp add: cond_lte_def name)
  from report_value_read [OF files] run cond rd labels show ?thesis
    unfolding name report_dict_def y_test_def [symmetric] predictions_def [symmetric] by blast
qed

theorem evaluation_report_layout_witness:
  "evaluation_main (map (\<lambda>r. sum_list (map (case_option 0 id) r)))
       (\<lambda>y p. sum_list (map2 (\<lambda>a b. (case_option 0 id a - b)\<^sup>2) y p) / real (length y))
       (\<lambda>r. sqrt (sum_list (map (\<lambda>x. (case_option 0 id x
                                       - sum_list (map (case_option 0 id) r) / real (length r))\<^sup>2) r)
                  / real (length r)))
       [[3, 1, 1], [], [5, 2]] =
     Inr (''/opt/ml/processing/evaluation/evaluation.json'',
          JObject [(''regression_metrics'',
            JObject [(''mse'', JObject [(''value'', JNumber 5), (''standard_deviation'', JNumber 1)])])])
   \<and> read_csv_headerless [[3, 1, 1], [], [5, 2]]
       = Inr [[Some 3, Some 1, Some 1], [Some 5, Some 2, None]]"
  using evaluation_report_layout [of "[[3, 1, 1], [], [5, 2]]" "[3, 1, 1]" "[[5, 2]]"
      "[[Some 3, Some 1, Some 1], [Some 5, Some 2, None]]"
      "map (\<lambda>r. sum_list (map (case_option 0 id) r))"
      "\<lparr>parameter_overrides = Map.empty,
        job_files = (\<lambda>s. case evaluation_main (map (\<lambda>r. sum_list (map (case_option 0 id) r)))
       (\<lambda>y p. sum_list (map2 (\<lambda>a b. (case_option 0 id a - b)\<^sup>2) y p) / real (length y))
       (\<lambda>r. sqrt (sum_list (map (\<lambda>x. (case_option 0 id x
                                       - sum_list (map (case_option 0 id) r) / real (length r))\<^sup>2) r)
                  / real (length r)))
       [[3, 1, 1], [], [5, 2]] of
                       Inl e \<Rightarrow> Map.empty
                     | Inr (file, doc) \<Rightarrow> [file \<mapsto> doc])\<rparr>"
      "\<lambda>y p. sum_list (map2 (\<lambda>a b. (case_option 0 id a - b)\<^sup>2) y p) / real (length y)"
      "\<lambda>r. sqrt (sum_list (map (\<lambda>x. (case_option 0 id x
                                       - sum_list (map (case_option 0 id) r) / real (length r))\<^sup>2) r)
                  / real (length r))"]
  by simp

text \<open>A test file whose second row has more fields than its first: the script raises
  and writes no report.\<close>

lemma evaluation_main_ragged_example:
  "evaluation_main predict mean_squared_error np_std [[3, 1], [5, 2, 2]] = Inl ParserError"
  by (simp add: evaluation_main_def read_csv_headerless_def)

subsection \<open>The condition step\<close>

lemma step_cond_branches:
  "if_steps step_cond = [step_register, step_create_model, step_transform]
   \<and> else_steps step_cond = [step_fail]"
  by (simp add: step_cond_def)

lemma branches_differ:
  "[step_register, step_create_model, step_transform] \<noteq> [step_fail]"
  by simp

text \<open>
  C1. In every execution in which the evaluation job has written the report of the
  evaluation script, with the MSE \<open>mse\<close> under \<open>regression_metrics.mse.value\<close>, the
  condition step takes a branch, and only one of two: the register branch (register,
  create-model and transform steps) exactly when \<open>mse\<close> is at most the value of the
  \<open>MseThreshold\<close> parameter, and the fail branch exactly when \<open>mse\<close> exceeds it. The
  parameter is 6.0 unless the execution sets it.
\<close>

theorem condition_step_routing:
  assumes "job_files ex ''AbaloneEval'' ''/opt/ml/processing/evaluation/evaluation.json''
             = Some (report_dict mse std)"
  shows "branch_taken ex pipeline_steps step_cond =
           Some (if mse \<le> parameter_value ex mse_threshold
                 then [step_register, step_create_model, step_transform]
                 else [step_fail])
         \<and> (branch_taken ex pipeline_steps step_cond = Some (if_steps step_cond)
              \<longleftrightarrow> mse \<le> parameter_value ex mse_threshold)
         \<and> (branch_taken ex pipeline_steps step_cond = Some (else_steps step_cond)
              \<longleftrightarrow> parameter_value ex mse_threshold < mse)
         \<and> parameter_value ex mse_threshold =
             (case parameter_overrides ex ''MseThreshold'' of Some t \<Rightarrow> t | None \<Rightarrow> 6)"
proof -
  have holds: "condition_holds ex pipeline_steps cond_lte
                 = Some (mse \<le> parameter_value ex mse_threshold)"
    unfolding cond_lte_def using report_value_read [OF assms] by simp
  have taken: "branch_taken ex pipeline_steps step_cond =
           Some (if mse \<le> parameter_value ex mse_threshold
                 then [step_register, step_create_model, step_transform]
                 else [step_fail])"
    unfolding step_cond_def by (simp add: holds)
  have param: "parameter_value ex mse_threshold =
             (case parameter_overrides ex ''MseThreshold'' of Some t \<Rightarrow> t | None \<Rightarrow> 6)"
    by (simp add: parameter_value_def mse_threshold_def split: option.split)
  show ?thesis
    unfolding taken using step_cond_branches branches_differ param by auto
qed

theorem condition_step_routing_witness:
  "branch_taken
     \<lparr>parameter_overrides = Map.empty,
      job_files = (\<lambda>s. [''/opt/ml/processing/evaluation/evaluation.json'' \<mapsto> report_dict 6 2])\<rparr>
     pipeline_steps step_cond = Some [step_register, step_create_model, step_transform]
   \<and> branch_taken
     \<lparr>parameter_overrides = [''MseThreshold'' \<mapsto> 5],
      job_files = (\<lambda>s. [''/opt/ml/processing/evaluation/evaluation.json'' \<mapsto> report_dict 6 2])\<rparr>
     pipeline_steps step_cond = Some [step_fail]"
  using condition_step_routing [of "\<lparr>parameter_overrides = Map.empty,
      job_files = (\<lambda>s. [''/opt/ml/processing/evaluation/evaluation.json'' \<mapsto> report_dict 6 2])\<rparr>" 6 2]
    condition_step_routing [of "\<lparr>parameter_overrides = [''MseThreshold'' \<mapsto> 5],
      job_files = (\<lambda>s. [''/opt/ml/processing/evaluation/evaluation.json'' \<mapsto> report_dict 6 2])\<rparr>" 6 2]
  by simp

text \<open>
  C3 (as amended). The pass branch of the condition step is the list of the register-model
  step, the create-model step and the batch-transform step, in this order (the transform
  step takes its model from the create-model step); these are three different steps. The
  fail branch is the single failure step \<open>AbaloneMSEFail\<close>, whose message is
  \<open>Execution failed due to MSE >\<close> joined by a blank with the value of the threshold
  parameter.
\<close>

theorem condition_step_branches:
  "if_steps step_cond = [step_register, step_create_model, step_transform]
   \<and> map name_of (if_steps step_cond)
       = [''AbaloneRegisterModel'', ''AbaloneCreateModel'', ''AbaloneTransform'']
   \<and> step_register = ModelStep ''AbaloneRegisterModel'' ModelRegister
   \<and> step_create_model = ModelStep ''AbaloneCreateModel'' ModelCreate
   \<and> step_transform = TransformStep ''AbaloneTransform'' ''AbaloneCreateModel''
   \<and> distinct (if_steps step_cond)
   \<and> else_steps step_cond = [step_fail]
   \<and> step_fail = FailStep ''AbaloneMSEFail''
         (Join '' '' [JoinText ''Execution failed due to MSE >'', JoinParam mse_threshold])
   \<and> error_message fmt ex step_fail
       = Some (''Execution failed due to MSE > '' @ fmt (parameter_value ex mse_threshold))"
  by (simp add: step_cond_def step_register_def step_create_model_def step_transform_def
      step_fail_def)

text \<open>The pass branch is not listed in the order create-model, register-model,
  batch-transform.\<close>

theorem condition_step_branches_counterexample:
  "if_steps step_cond \<noteq> [step_create_model, step_register, step_transform]"
  by (simp add: step_cond_def step_register_def step_create_model_def)

section \<open>Properties of the serverless endpoint notebook\<close>

subsection \<open>Creating only what is not listed\<close>

text \<open>
  C9. In each of the three cells the list call is made first, with the entity's name as
  \<open>NameContains\<close>. When it answers with an empty list, the cell makes exactly one
  more call, the create call; when it answers with a non-empty list, the cell makes no
  further call, so it changes nothing at the service, prints its message and ends
  normally. The create call is made exactly when the list is empty.
\<close>

theorem create_only_when_absent:
  assumes "sm (length (calls w)) (ListModels model_name) = Inr (Matches models)"
      and "sm (length (calls w)) (ListEndpointConfigs endpoint_config_name) = Inr (Matches configs)"
      and "sm (length (calls w)) (ListEndpoints endpoint_name) = Inr (Matches endpoints)"
  shows "calls (snd (create_model_cell sm training_image sagemaker_role w)) =
           calls w @ (if models = []
                      then [ListModels model_name,
                            CreateModel model_name (training_image, model_uri) sagemaker_role]
                      else [ListModels model_name])
         \<and> (models \<noteq> [] \<longrightarrow>
               create_model_cell sm training_image sagemaker_role w =
                 (Inr (), w\<lparr>calls := calls w @ [ListModels model_name],
                           stdout := stdout w @
                             [''Model with name fraud-detect-xgb already exists! Change model name to create new'']\<rparr>))
         \<and> calls (snd (create_endpoint_config_cell sm w)) =
           calls w @ (if configs = []
                      then [ListEndpointConfigs endpoint_config_name,
                            CreateEndpointConfig endpoint_config_name [production_variant_dict]]
                      else [ListEndpointConfigs endpoint_config_name])
         \<and> (configs \<noteq> [] \<longrightarrow>
               create_endpoint_config_cell sm w =
                 (Inr (), w\<lparr>calls := calls w @ [ListEndpointConfigs endpoint_config_name],
                           stdout := stdout w @
                             [''Endpoint config with name fraud-detect-xgb-serverless-epconfig already exists! Change endpoint config name to create new'']\<rparr>))
         \<and> calls (snd (create_endpoint_part sm w)) =
           calls w @ (if endpoints = []
                      then [ListEndpoints endpoint_name,
                            CreateEndpoint endpoint_name endpoint_config_name]
                      else [ListEndpoints endpoint_name])
         \<and> (endpoints \<noteq> [] \<longrightarrow>
               create_endpoint_part sm w =
                 (Inr (), w\<lparr>calls := calls w @ [ListEndpoints endpoint_name],
                           stdout := stdout w @
                             [''Endpoint with name fraud-detect-xgb-serverless-ep already exists! Change endpoint name to create new'']\<rparr>))"
proof -
  have m: "calls (snd (create_model_cell sm training_image sagemaker_role w)) =
           calls w @ (if models = []
                      then [ListModels model_name,
                            CreateModel model_name (training_image, model_uri) sagemaker_role]
                      else [ListModels model_name])"
    using assms(1) by (simp add: create_model_cell_def api_def print_def split: sum.split)
  have m': "create_model_cell sm training_image sagemaker_role w =
                 (Inr (), w\<lparr>calls := calls w @ [ListModels model_name],
                           stdout := stdout w @
                             [''Model with name fraud-detect-xgb already exists! Change model name to create new'']\<rparr>)"
    if "models \<noteq> []"
    using assms(1) that by (simp add: create_model_cell_def api_def print_def model_name_def)
  have c: "calls (snd (create_endpoint_config_cell sm w)) =
           calls w @ (if configs = []
                      then [ListEndpointConfigs endpoint_config_name,
                            CreateEndpointConfig endpoint_config_name [production_variant_dict]]
                      else [ListEndpointConfigs endpoint_config_name])"
    using assms(2) by (simp add: create_endpoint_config_cell_def api_def print_def split: sum.split)
  have c': "create_endpoint_config_cell sm w =
                 (Inr (), w\<lparr>calls := calls w @ [ListEndpointConfigs endpoint_config_name],
                           stdout := stdout w @
                             [''Endpoint config with name fraud-detect-xgb-serverless-epconfig already exists! Change endpoint config name to create new'']\<rparr>)"
    if "configs \<noteq> []"
    using assms(2) that
    by (simp add: create_endpoint_config_cell_def api_def print_def endpoint_config_name_def model_name_def)
  have e: "calls (snd (create_endpoint_part sm w)) =
           calls w @ (if endpoints = []
                      then [ListEndpoints endpoint_name,
                            CreateEndpoint endpoint_name endpoint_config_name]
                      else [ListEndpoints endpoint_name])"
    using assms(3) by (simp add: create_endpoint_part_def api_def print_def split: sum.split)
  have e': "create_endpoint_part sm w =
                 (Inr (), w\<lparr>calls := calls w @ [ListEndpoints endpoint_name],
                           stdout := stdout w @
                             [''Endpoint with name fraud-detect-xgb-serverless-ep already exists! Change endpoint name to create new'']\<rparr>)"
    if "endpoints \<noteq> []"
    using assms(3) that
    by (simp add: create_endpoint_part_def api_def print_def endpoint_name_def model_name_def)
  from m m' c c' e e' show ?thesis by blast
qed

theorem create_only_when_absent_witness:
  "create_model_cell
     (\<lambda>i c. case c of ListModels n \<Rightarrow> Inr (Matches [''fraud-detect-xgb'']) | _ \<Rightarrow> Inr (Matches []))
     ''xgboost:1.3-1'' ''arn:role'' \<lparr>calls = [], stdout = [], sleeps = []\<rparr>
     = (Inr (), \<lparr>calls = [ListModels ''fraud-detect-xgb''],
                 stdout = [''Model with name fraud-detect-xgb already exists! Change model name to create new''],
                 sleeps = []\<rparr>)
   \<and> calls (snd (create_endpoint_config_cell
       (\<lambda>i c. case c of ListModels n \<Rightarrow> Inr (Matches [''fraud-detect-xgb'']) | _ \<Rightarrow> Inr (Matches []))
       \<lparr>calls = [], stdout = [], sleeps = []\<rparr>))
     = [ListEndpointConfigs ''fraud-detect-xgb-serverless-epconfig'',
        CreateEndpointConfig ''fraud-detect-xgb-serverless-epconfig''
          [\<lparr>VariantName = ''Alltraffic'', ModelName = ''fraud-detect-xgb'',
            MemorySizeInMB = 3072, MaxConcurrency = 1\<rparr>]]"
proof -
  let ?sm = "(\<lambda>i c. (case c of ListModels n \<Rightarrow> Inr (Matches [''fraud-detect-xgb''])
                                   | _ \<Rightarrow> Inr (Matches []))) :: service"
  let ?w = "\<lparr>calls = [], stdout = [], sleeps = []\<rparr>"
  from create_only_when_absent
    [of ?sm ?w "[''fraud-detect-xgb'']" "[]" "[]" "''xgboost:1.3-1''" "''arn:role''"]
  show ?thesis
    by (simp add: model_name_def endpoint_config_name_def endpoint_name_def
        production_variant_dict_def)
qed

subsection \<open>The polling loop\<close>

lemma describe_status_eq:
  "describe_status sm w =
     (status_seen sm (length (calls w)),
      \<lparr>calls = calls w @ [DescribeEndpoint endpoint_name], stdout = stdout w,
       sleeps = sleeps w\<rparr>)"
  by (cases w) (simp add: describe_status_def status_seen_def api_def split: sum.split response.split)

lemma loop_exit:
  "status \<noteq> ''Creating'' \<Longrightarrow> while_creating sm status w = Some (Inr status, w)"
  by (subst while_creating.simps) simp

lemma loop_step:
  "while_creating sm ''Creating'' w =
     (case status_seen sm (length (calls w)) of
        Inl e \<Rightarrow>
          Some (Inl e, \<lparr>calls = calls w @ [DescribeEndpoint endpoint_name],
                         stdout = stdout w @ [''Endpoint Status: Creating...''],
                         sleeps = sleeps w @ [60]\<rparr>)
      | Inr status \<Rightarrow>
          while_creating sm status
            \<lparr>calls = calls w @ [DescribeEndpoint endpoint_name],
              stdout = stdout w @ [''Endpoint Status: Creating...''],
              sleeps = sleeps w @ [60]\<rparr>)"
  by (subst while_creating.simps)
     (simp add: describe_status_eq time_sleep_def print_def split: sum.split)

lemma loop_settles:
  assumes "\<forall>j<k. status_seen sm (length (calls w) + j) = Inr ''Creating''"
      and "status_seen sm (length (calls w) + k) \<noteq> Inr ''Creating''"
  shows "while_creating sm ''Creating'' w =
           Some (status_seen sm (length (calls w) + k),
                 \<lparr>calls = calls w @ replicate (Suc k) (DescribeEndpoint endpoint_name),
                  stdout = stdout w @ replicate (Suc k) ''Endpoint Status: Creating...'',
                  sleeps = sleeps w @ replicate (Suc k) 60\<rparr>)"
  using assms
proof (induction k arbitrary: w)
  case 0
  then show ?case
    by (cases "status_seen sm (length (calls w))") (simp_all add: loop_step loop_exit)
next
  case (Suc k)
  let ?w = "\<lparr>calls = calls w @ [DescribeEndpoint endpoint_name],
               stdout = stdout w @ [''Endpoint Status: Creating...''],
               sleeps = sleeps w @ [60]\<rparr>"
  from Suc.prems(1) have first: "status_seen sm (length (calls w)) = Inr ''Creating''"
    by (metis add.right_neutral zero_less_Suc)
  have "\<forall>j<k. status_seen sm (length (calls ?w) + j) = Inr ''Creating''"
    using Suc.prems(1) by (auto simp: less_Suc_eq_0_disj)
  moreover have "status_seen sm (length (calls ?w) + k) \<noteq> Inr ''Creating''"
    using Suc.prems(2) by simp
  ultimately have "while_creating sm ''Creating'' ?w =
           Some (status_seen sm (length (calls ?w) + k),
                 \<lparr>calls = calls ?w @ replicate (Suc k) (DescribeEndpoint endpoint_name),
                  stdout = stdout ?w @ replicate (Suc k) ''Endpoint Status: Creating...'',
                  sleeps = sleeps ?w @ replicate (Suc k) 60\<rparr>)"
    by (rule Suc.IH)
  then show ?case
    by (subst loop_step) (simp add: first)
qed

lemma loop_forever_aux:
  assumes "while_creating sm status w = Some y"
  shows "status = ''Creating'' \<longrightarrow>
         \<not> (\<forall>j. status_seen sm (length (calls w) + j) = Inr ''Creating'')"
proof (rule while_creating.raw_induct
    [where P = "\<lambda>sm status w y. status = ''Creating'' \<longrightarrow>
                  \<not> (\<forall>j. status_seen sm (length (calls w) + j) = Inr ''Creating'')",
     OF _ assms])
  fix loop :: "service \<Rightarrow> string \<Rightarrow> world \<Rightarrow> ((error + string) \<times> world) option"
    and sm status w y
  assume IH: "\<And>sm status w y. loop sm status w = Some y \<Longrightarrow>
                status = ''Creating'' \<longrightarrow>
                \<not> (\<forall>j. status_seen sm (length (calls w) + j) = Inr ''Creating'')"
    and body: "(if status = ''Creating''
                then case describe_status sm
                       (time_sleep 60 (print (''Endpoint Status: '' @ status @ ''...'') w)) of
                     (Inl e, w1) \<Rightarrow> Some (Inl e, w1)
                   | (Inr status', w1) \<Rightarrow> loop sm status' w1
                else Some (Inr status, w)) = Some y"
  show "status = ''Creating'' \<longrightarrow>
        \<not> (\<forall>j. status_seen sm (length (calls w) + j) = Inr ''Creating'')"
  proof (intro impI notI)
    assume st: "status = ''Creating''"
      and all: "\<forall>j. status_seen sm (length (calls w) + j) = Inr ''Creating''"
    let ?w = "\<lparr>calls = calls w @ [DescribeEndpoint endpoint_name],
               stdout = stdout w @ [''Endpoint Status: Creating...''],
               sleeps = sleeps w @ [60]\<rparr>"
    from all have first: "status_seen sm (length (calls w)) = Inr ''Creating''"
      by (metis add.right_neutral)
    from body st first have "loop sm ''Creating'' ?w = Some y"
      by (simp add: describe_status_eq time_sleep_def print_def)
    from IH [OF this] have "\<not> (\<forall>j. status_seen sm (length (calls ?w) + j) = Inr ''Creating'')"
      by simp
    moreover have "\<forall>j. status_seen sm (length (calls ?w) + j) = Inr ''Creating''"
    proof
      fix j
      from all have "status_seen sm (length (calls w) + Suc j) = Inr ''Creating''" by blast
      then show "status_seen sm (length (calls ?w) + j) = Inr ''Creating''" by simp
    qed
    ultimately show False by blast
  qed
qed

lemma loop_forever:
  "\<forall>j. status_seen sm (length (calls w) + j) = Inr ''Creating'' \<Longrightarrow>
   while_creating sm ''Creating'' w = None"
  using loop_forever_aux [of sm "''Creating''" w] by (cases "while_creating sm ''Creating'' w") auto

lemma wait_settles:
  assumes before: "\<forall>j<k. status_seen sm (length (calls w) + j) = Inr ''Creating''"
      and at: "status_seen sm (length (calls w) + k) \<noteq> Inr ''Creating''"
  shows "wait_for_endpoint sm w =
           Some (status_seen sm (length (calls w) + k),
                 \<lparr>calls = calls w @ replicate (Suc k) (DescribeEndpoint endpoint_name),
                  stdout = stdout w @ replicate k ''Endpoint Status: Creating...'' @
                    (case status_seen sm (length (calls w) + k) of
                       Inl e \<Rightarrow> []
                     | Inr status \<Rightarrow> [''Endpoint Status: '' @ status]),
                  sleeps = sleeps w @ replicate k 60\<rparr>)"
proof (cases k)
  case 0
  with at show ?thesis
    by (cases "status_seen sm (length (calls w))")
       (simp_all add: wait_for_endpoint_def describe_status_eq loop_exit print_def)
next
  case (Suc k')
  let ?w = "\<lparr>calls = calls w @ [DescribeEndpoint endpoint_name], stdout = stdout w,
             sleeps = sleeps w\<rparr>"
  from before Suc have first: "status_seen sm (length (calls w)) = Inr ''Creating''"
    by (metis add.right_neutral zero_less_Suc)
  have "\<forall>j<k'. status_seen sm (length (calls ?w) + j) = Inr ''Creating''"
    using before Suc by (auto simp: less_Suc_eq_0_disj)
  moreover have "status_seen sm (length (calls ?w) + k') \<noteq> Inr ''Creating''"
    using at Suc by simp
  ultimately have loop: "while_creating sm ''Creating'' ?w =
           Some (status_seen sm (length (calls ?w) + k'),
                 \<lparr>calls = calls ?w @ replicate (Suc k') (DescribeEndpoint endpoint_name),
                  stdout = stdout ?w @ replicate (Suc k') ''Endpoint Status: Creating...'',
                  sleeps = sleeps ?w @ replicate (Suc k') 60\<rparr>)"
    by (rule loop_settles)
  show ?thesis
    unfolding wait_for_endpoint_def describe_status_eq
    by (cases "status_seen sm (Suc (length (calls w) + k'))")
       (simp_all add: first loop Suc print_def)
qed

lemma wait_forever:
  assumes "\<forall>j. status_seen sm (length (calls w) + j) = Inr ''Creating''"
  shows "wait_for_endpoint sm w = None"
proof -
  let ?w = "\<lparr>calls = calls w @ [DescribeEndpoint endpoint_name], stdout = stdout w,
             sleeps = sleeps w\<rparr>"
  from assms have first: "status_seen sm (length (calls w)) = Inr ''Creating''"
    by (metis add.right_neutral)
  have "\<forall>j. status_seen sm (length (calls ?w) + j) = Inr ''Creating''"
  proof
    fix j
    from assms have "status_seen sm (length (calls w) + Suc j) = Inr ''Creating''" by blast
    then show "status_seen sm (length (calls ?w) + j) = Inr ''Creating''" by simp
  qed
  then have "while_creating sm ''Creating'' ?w = None" by (rule loop_forever)
  then show ?thesis
    by (simp add: wait_for_endpoint_def describe_status_eq first)
qed

lemma wait_returns_iff:
  "wait_for_endpoint sm w \<noteq> None
     \<longleftrightarrow> (\<exists>j. status_seen sm (length (calls w) + j) \<noteq> Inr ''Creating'')"
proof -
  define creating where
    "creating j \<longleftrightarrow> status_seen sm (length (calls w) + j) = Inr ''Creating''" for j
  have forever: "wait_for_endpoint sm w = None" if "\<forall>j. creating j"
    using that unfolding creating_def by (rule wait_forever)
  have settles: "wait_for_endpoint sm w \<noteq> None" if "\<forall>j<k. creating j" and "\<not> creating k" for k
    using wait_settles [of k sm w] that unfolding creating_def by simp
  have "wait_for_endpoint sm w \<noteq> None \<longleftrightarrow> (\<exists>j. \<not> creating j)"
  proof
    assume "wait_for_endpoint sm w \<noteq> None"
    with forever show "\<exists>j. \<not> creating j" by blast
  next
    assume "\<exists>j. \<not> creating j"
    then obtain k where "\<not> creating k" and "\<forall>j<k. \<not> \<not> creating j"
      using exists_least_iff [of "\<lambda>j. \<not> creating j"] by blast
    then show "wait_for_endpoint sm w \<noteq> None" using settles by blast
  qed
  then show ?thesis unfolding creating_def .
qed

text \<open>
  C6 (as amended). The cell reads the endpoint status with one describe call and, while
  the status it read is \<open>Creating\<close>, prints it, sleeps 60 seconds and reads it again.
  When the first \<open>k\<close> describe calls answer \<open>Creating\<close> and the next one answers
  another status, the loop ends right there: it has made \<open>k + 1\<close> describe calls and
  \<open>k\<close> sleeps, every one of 60 seconds, and it ends with that status. When the next one
  raises instead, the loop ends right there too, with that exception, although the last
  status read is \<open>Creating\<close>. When every describe call answers \<open>Creating\<close> the loop
  never ends. So the loop ends exactly when some describe call gives anything but the
  status \<open>Creating\<close>, another status or an exception; and when every describe call
  returns a status, exactly when the endpoint at some time reports a status other than
  \<open>Creating\<close>.
\<close>

theorem polling_loop:
  "((\<forall>j<k. status_seen sm (length (calls w) + j) = Inr ''Creating'')
      \<and> status_seen sm (length (calls w) + k) = Inr status \<and> status \<noteq> ''Creating''
     \<longrightarrow> wait_for_endpoint sm w =
           Some (Inr status,
                 \<lparr>calls = calls w @ replicate (Suc k) (DescribeEndpoint endpoint_name),
                  stdout = stdout w @ replicate k ''Endpoint Status: Creating...'' @
                             [''Endpoint Status: '' @ status],
                  sleeps = sleeps w @ replicate k 60\<rparr>))
   \<and> ((\<forall>j<k. status_seen sm (length (calls w) + j) = Inr ''Creating'')
      \<and> status_seen sm (length (calls w) + k) = Inl e
     \<longrightarrow> wait_for_endpoint sm w =
           Some (Inl e,
                 \<lparr>calls = calls w @ replicate (Suc k) (DescribeEndpoint endpoint_name),
                  stdout = stdout w @ replicate k ''Endpoint Status: Creating...'',
                  sleeps = sleeps w @ replicate k 60\<rparr>))
   \<and> ((\<forall>j. status_seen sm (length (calls w) + j) = Inr ''Creating'')
         \<longrightarrow> wait_for_endpoint sm w = None)
   \<and> (wait_for_endpoint sm w \<noteq> None
         \<longleftrightarrow> (\<exists>j. status_seen sm (length (calls w) + j) \<noteq> Inr ''Creating''))
   \<and> ((\<forall>j. \<exists>s. status_seen sm (length (calls w) + j) = Inr s)
         \<longrightarrow> (wait_for_endpoint sm w \<noteq> None
                \<longleftrightarrow> (\<exists>j s. status_seen sm (length (calls w) + j) = Inr s \<and> s \<noteq> ''Creating'')))"
proof (intro conjI impI)
  assume a: "(\<forall>j<k. status_seen sm (length (calls w) + j) = Inr ''Creating'')
      \<and> status_seen sm (length (calls w) + k) = Inr status \<and> status \<noteq> ''Creating''"
  then have "status_seen sm (length (calls w) + k) \<noteq> Inr ''Creating''" by simp
  with a wait_settles [of k sm w] show "wait_for_endpoint sm w =
           Some (Inr status,
                 \<lparr>calls = calls w @ replicate (Suc k) (DescribeEndpoint endpoint_name),
                  stdout = stdout w @ replicate k ''Endpoint Status: Creating...'' @
                             [''Endpoint Status: '' @ status],
                  sleeps = sleeps w @ replicate k 60\<rparr>)"
    by simp
next
  assume a: "(\<forall>j<k. status_seen sm (length (calls w) + j) = Inr ''Creating'')
      \<and> status_seen sm (length (calls w) + k) = Inl e"
  then have "status_seen sm (length (calls w) + k) \<noteq> Inr ''Creating''" by simp
  with a wait_settles [of k sm w] show "wait_for_endpoint sm w =
           Some (Inl e,
                 \<lparr>calls = calls w @ replicate (Suc k) (DescribeEndpoint endpoint_name),
                  stdout = stdout w @ replicate k ''Endpoint Status: Creating...'',
                  sleeps = sleeps w @ replicate k 60\<rparr>)"
    by simp
next
  assume "\<forall>j. status_seen sm (length (calls w) + j) = Inr ''Creating''"
  then show "wait_for_endpoint sm w = None" by (rule wait_forever)
next
  show "wait_for_endpoint sm w \<noteq> None
         \<longleftrightarrow> (\<exists>j. status_seen sm (length (calls w) + j) \<noteq> Inr ''Creating'')"
    by (rule wait_returns_iff)
next
  assume total: "\<forall>j. \<exists>s. status_seen sm (length (calls w) + j) = Inr s"
  have "status_seen sm (length (calls w) + j) \<noteq> Inr ''Creating''
          \<longleftrightarrow> (\<exists>s. status_seen sm (length (calls w) + j) = Inr s \<and> s \<noteq> ''Creating'')" for j
  proof -
    from total obtain s where "status_seen sm (length (calls w) + j) = Inr s" by auto
    then show ?thesis by simp
  qed
  then have "(\<exists>j. status_seen sm (length (calls w) + j) \<noteq> Inr ''Creating'')
             \<longleftrightarrow> (\<exists>j s. status_seen sm (length (calls w) + j) = Inr s \<and> s \<noteq> ''Creating'')"
    by simp
  then show "wait_for_endpoint sm w \<noteq> None
                \<longleftrightarrow> (\<exists>j s. status_seen sm (length (calls w) + j) = Inr s \<and> s \<noteq> ''Creating'')"
    using wait_returns_iff by simp
qed

theorem polling_loop_witness:
  "wait_for_endpoint
     (\<lambda>i c. if i < 2 then Inr (EndpointStatus ''Creating'') else Inr (EndpointStatus ''InService''))
     \<lparr>calls = [], stdout = [], sleeps = []\<rparr>
     = Some (Inr ''InService'',
             \<lparr>calls = [DescribeEndpoint endpoint_name, DescribeEndpoint endpoint_name,
                        DescribeEndpoint endpoint_name],
              stdout = [''Endpoint Status: Creating...'', ''Endpoint Status: Creating...'',
                        ''Endpoint Status: InService''],
              sleeps = [60, 60]\<rparr>)
   \<and> wait_for_endpoint (\<lambda>i c. Inr (EndpointStatus ''Creating''))
       \<lparr>calls = [], stdout = [], sleeps = []\<rparr> = None"
proof -
  let ?sm = "\<lambda>(i :: nat) (c :: api_call).
     if i < 2 then Inr (EndpointStatus ''Creating'') else Inr (EndpointStatus ''InService'') :: error + response"
  let ?forever = "\<lambda>(i :: nat) (c :: api_call). Inr (EndpointStatus ''Creating'') :: error + response"
  let ?w = "\<lparr>calls = [], stdout = [], sleeps = []\<rparr>"
  have pre: "(\<forall>j<2. status_seen ?sm (length (calls ?w) + j) = Inr ''Creating'')
      \<and> status_seen ?sm (length (calls ?w) + 2) = Inr ''InService'' \<and> ''InService'' \<noteq> ''Creating''"
    by (simp add: status_seen_def)
  have ends: "wait_for_endpoint ?sm ?w
     = Some (Inr ''InService'',
             \<lparr>calls = [DescribeEndpoint endpoint_name, DescribeEndpoint endpoint_name,
                        DescribeEndpoint endpoint_name],
              stdout = [''Endpoint Status: Creating...'', ''Endpoint Status: Creating...'',
                        ''Endpoint Status: InService''],
              sleeps = [60, 60]\<rparr>)"
    using polling_loop [of 2 ?sm ?w "''InService''", THEN conjunct1, rule_format, OF pre]
    by (simp add: numeral_2_eq_2 numeral_3_eq_3)
  have all: "\<forall>j. status_seen ?forever (length (calls ?w) + j) = Inr ''Creating''"
    by (simp add: status_seen_def)
  have "wait_for_endpoint ?forever ?w = None"
    by (rule polling_loop [of 0 ?forever ?w "[]", THEN conjunct2, THEN conjunct2, THEN conjunct1,
          THEN mp, OF all])
  with ends show ?thesis by simp
qed

text \<open>
  The loop does exit while the status is \<open>Creating\<close>, and without the endpoint ever
  reporting another status: the first describe call answers \<open>Creating\<close>, the second
  one raises, and the cell ends with that exception after one sleep.
\<close>

theorem polling_loop_counterexample:
  "status_seen
     (\<lambda>i c. if i = 0 then Inr (EndpointStatus ''Creating'')
            else Inl (ClientError ''ThrottlingException'')) 0 = Inr ''Creating''
   \<and> wait_for_endpoint
       (\<lambda>i c. if i = 0 then Inr (EndpointStatus ''Creating'')
              else Inl (ClientError ''ThrottlingException''))
       \<lparr>calls = [], stdout = [], sleeps = []\<rparr>
     = Some (Inl (ClientError ''ThrottlingException''),
             \<lparr>calls = [DescribeEndpoint endpoint_name, DescribeEndpoint endpoint_name],
              stdout = [''Endpoint Status: Creating...''],
              sleeps = [60]\<rparr>)"
proof -
  let ?sm = "(\<lambda>i c. if i = 0 then Inr (EndpointStatus ''Creating'')
                   else Inl (ClientError ''ThrottlingException'')) :: service"
  let ?w = "\<lparr>calls = [], stdout = [], sleeps = []\<rparr>"
  have first: "status_seen ?sm 0 = Inr ''Creating''"
    and second: "status_seen ?sm 1 = Inl (ClientError ''ThrottlingException'')"
    by (simp_all add: status_seen_def)
  have "\<forall>j<1. status_seen ?sm (length (calls ?w) + j) = Inr ''Creating''"
    using first by simp
  moreover have "status_seen ?sm (length (calls ?w) + 1) \<noteq> Inr ''Creating''"
    using second by simp
  ultimately have "wait_for_endpoint ?sm ?w =
           Some (status_seen ?sm (length (calls ?w) + 1),
                 \<lparr>calls = calls ?w @ replicate (Suc 1) (DescribeEndpoint endpoint_name),
                  stdout = stdout ?w @ replicate 1 ''Endpoint Status: Creating...'' @
                    (case status_seen ?sm (length (calls ?w) + 1) of
                       Inl e \<Rightarrow> []
                     | Inr status \<Rightarrow> [''Endpoint Status: '' @ status]),
                  sleeps = sleeps ?w @ replicate 1 60\<rparr>)"
    by (rule wait_settles)
  with first second show ?thesis by simp
qed

text \<open>That service never reports a status other than \<open>Creating\<close>.\<close>

lemma raising_service_never_settles:
  "status_seen
     (\<lambda>i c. if i = 0 then Inr (EndpointStatus ''Creating'')
            else Inl (ClientError ''ThrottlingException'')) j = Inr s \<Longrightarrow> s = ''Creating''"
  by (cases "j = 0") (simp_all add: status_seen_def)

subsection \<open>SDK errors\<close>

lemma surface_none:
  "calls w' = calls w \<Longrightarrow> sdk_errors_surface sm w (r, w')"
  by (simp add: sdk_errors_surface_def)

lemma surface_one:
  assumes "calls w' = calls w @ [c]"
      and "\<And>e. sm (length (calls w)) c = Inl e \<Longrightarrow> r = Inl e"
  shows "sdk_errors_surface sm w (r, w')"
  using assms by (simp add: sdk_errors_surface_def)

lemma surface_seq:
  assumes first: "sdk_errors_surface sm w (Inr x, w1)"
      and rest: "sdk_errors_surface sm w1 (r, w2)"
  shows "sdk_errors_surface sm w (r, w2)"
proof -
  from first obtain cs where cs: "calls w1 = calls w @ cs"
    and ok: "\<forall>i<length cs. \<forall>e. sm (length (calls w) + i) (cs ! i) \<noteq> Inl e"
    by (auto simp: sdk_errors_surface_def)
  from rest obtain ds where ds: "calls w2 = calls w1 @ ds"
    and last: "\<forall>i<length ds. \<forall>e. sm (length (calls w1) + i) (ds ! i) = Inl e \<longrightarrow>
                 r = Inl e \<and> Suc i = length ds"
    by (auto simp: sdk_errors_surface_def)
  have "calls w2 = calls w @ (cs @ ds)" using cs ds by simp
  moreover have "\<forall>i<length (cs @ ds). \<forall>e.
      sm (length (calls w) + i) ((cs @ ds) ! i) = Inl e \<longrightarrow> r = Inl e \<and> Suc i = length (cs @ ds)"
  proof (intro allI impI)
    fix i e
    assume i: "i < length (cs @ ds)"
      and err: "sm (length (calls w) + i) ((cs @ ds) ! i) = Inl e"
    show "r = Inl e \<and> Suc i = length (cs @ ds)"
    proof (cases "i < length cs")
      case True
      with ok err show ?thesis by (simp add: nth_append)
    next
      case False
      then have "i - length cs < length ds" using i by simp
      moreover have "sm (length (calls w1) + (i - length cs)) (ds ! (i - length cs)) = Inl e"
        using err False cs by (simp add: nth_append)
      ultimately have "r = Inl e \<and> Suc (i - length cs) = length ds" using last by blast
      with False show ?thesis by (simp add: not_less) arith
    qed
  qed
  ultimately show ?thesis unfolding sdk_errors_surface_def by blast
qed

lemma surface_same_calls:
  "calls w = calls w0 \<Longrightarrow> sdk_errors_surface sm w out = sdk_errors_surface sm w0 out"
  by (simp add: sdk_errors_surface_def)

lemma api_surface:
  "sdk_errors_surface sm w (api sm c w)"
  unfolding api_def by (rule surface_one [where c = c]) simp_all

lemma api_surface_then:
  assumes "api sm c w = (a, w1)" and "\<And>e. a = Inl e \<Longrightarrow> r = Inl e" and "calls w2 = calls w1"
  shows "sdk_errors_surface sm w (r, w2)"
  using assms by (intro surface_one [where c = c]) (auto simp: api_def)

lemma surface_bind:
  assumes call: "api sm c w = (a, w1)"
      and raised: "\<And>e. a = Inl e \<Longrightarrow> out = (Inl e, w1)"
      and returned: "\<And>x. a = Inr x \<Longrightarrow> sdk_errors_surface sm w1 out"
  shows "sdk_errors_surface sm w out"
proof -
  from call have w1: "calls w1 = calls w @ [c]" and a: "a = sm (length (calls w)) c"
    by (auto simp: api_def)
  show ?thesis
  proof (cases a)
    case (Inl e)
    with raised have "out = (Inl e, w1)" by simp
    moreover have "sdk_errors_surface sm w (Inl e, w1)"
      using w1 a Inl by (intro surface_one [where c = c]) simp_all
    ultimately show ?thesis by simp
  next
    case (Inr x)
    have "sdk_errors_surface sm w (Inr x, w1)"
      using w1 a Inr by (intro surface_one [where c = c]) simp_all
    moreover from returned [OF Inr] have "sdk_errors_surface sm w1 (fst out, snd out)" by simp
    ultimately have "sdk_errors_surface sm w (fst out, snd out)" by (rule surface_seq)
    then show ?thesis by simp
  qed
qed

lemma surface_last:
  "sdk_errors_surface sm w
     (case api sm c w of (Inl e, w1) \<Rightarrow> (Inl e, w1) | (Inr x, w1) \<Rightarrow> (Inr (f x), w1))"
  by (rule surface_bind [where c = c, OF surjective_pairing])
     (auto simp: api_def intro: surface_none)

lemma create_model_cell_surface:
  "sdk_errors_surface sm w (create_model_cell sm training_image sagemaker_role w)"
proof (rule surface_bind [OF surjective_pairing])
  fix e assume "fst (api sm (ListModels model_name) w) = Inl e"
  then show "create_model_cell sm training_image sagemaker_role w
               = (Inl e, snd (api sm (ListModels model_name) w))"
    by (simp add: create_model_cell_def split_beta)
next
  fix x assume "fst (api sm (ListModels model_name) w) = Inr x"
  then show "sdk_errors_surface sm (snd (api sm (ListModels model_name) w))
               (create_model_cell sm training_image sagemaker_role w)"
    using surface_last [where sm = sm and w = "snd (api sm (ListModels model_name) w)" and c = "CreateModel model_name (training_image, model_uri) sagemaker_role" and f = "\<lambda>_. ()"]
    by (cases x) (auto simp: create_model_cell_def split_beta print_def intro: surface_none)
qed

lemma create_endpoint_config_cell_surface:
  "sdk_errors_surface sm w (create_endpoint_config_cell sm w)"
proof (rule surface_bind [OF surjective_pairing])
  fix e assume "fst (api sm (ListEndpointConfigs endpoint_config_name) w) = Inl e"
  then show "create_endpoint_config_cell sm w
               = (Inl e, snd (api sm (ListEndpointConfigs endpoint_config_name) w))"
    by (simp add: create_endpoint_config_cell_def split_beta)
next
  fix x assume "fst (api sm (ListEndpointConfigs endpoint_config_name) w) = Inr x"
  then show "sdk_errors_surface sm (snd (api sm (ListEndpointConfigs endpoint_config_name) w))
               (create_endpoint_config_cell sm w)"
    using surface_last [where sm = sm and w = "snd (api sm (ListEndpointConfigs endpoint_config_name) w)" and c = "CreateEndpointConfig endpoint_config_name [production_variant_dict]" and f = "\<lambda>_. ()"]
    by (cases x) (auto simp: create_endpoint_config_cell_def split_beta print_def intro: surface_none)
qed

lemma create_endpoint_part_surface:
  "sdk_errors_surface sm w (create_endpoint_part sm w)"
proof (rule surface_bind [OF surjective_pairing])
  fix e assume "fst (api sm (ListEndpoints endpoint_name) w) = Inl e"
  then show "create_endpoint_part sm w
               = (Inl e, snd (api sm (ListEndpoints endpoint_name) w))"
    by (simp add: create_endpoint_part_def split_beta)
next
  fix x assume "fst (api sm (ListEndpoints endpoint_name) w) = Inr x"
  then show "sdk_errors_surface sm (snd (api sm (ListEndpoints endpoint_name) w))
               (create_endpoint_part sm w)"
    using surface_last [where sm = sm and w = "snd (api sm (ListEndpoints endpoint_name) w)" and c = "CreateEndpoint endpoint_name endpoint_config_name" and f = "\<lambda>_. ()"]
    by (cases x) (auto simp: create_endpoint_part_def split_beta print_def intro: surface_none)
qed

lemma delete_cell_surface:
  "sdk_errors_surface sm w (delete_cell sm w)"
proof (rule surface_bind [OF surjective_pairing])
  fix e assume "fst (api sm (DeleteModel model_name) w) = Inl e"
  then show "delete_cell sm w = (Inl e, snd (api sm (DeleteModel model_name) w))"
    by (simp add: delete_cell_def split_beta)
next
  fix x assume first: "fst (api sm (DeleteModel model_name) w) = Inr x"
  let ?w1 = "snd (api sm (DeleteModel model_name) w)"
  have "sdk_errors_surface sm ?w1
          (case api sm (DeleteEndpointConfig endpoint_config_name) ?w1 of
             (Inl e, w2) \<Rightarrow> (Inl e, w2)
           | (Inr _, w2) \<Rightarrow>
               (case api sm (DeleteEndpoint endpoint_name) w2 of
                  (Inl e, w3) \<Rightarrow> (Inl e, w3)
                | (Inr _, w3) \<Rightarrow> (Inr (), w3)))"
  proof (rule surface_bind [OF surjective_pairing])
    fix e assume "fst (api sm (DeleteEndpointConfig endpoint_config_name) ?w1) = Inl e"
    then show "(case api sm (DeleteEndpointConfig endpoint_config_name) ?w1 of
             (Inl e, w2) \<Rightarrow> (Inl e, w2)
           | (Inr _, w2) \<Rightarrow>
               (case api sm (DeleteEndpoint endpoint_name) w2 of
                  (Inl e, w3) \<Rightarrow> (Inl e :: error + unit, w3)
                | (Inr _, w3) \<Rightarrow> (Inr (), w3)))
           = (Inl e, snd (api sm (DeleteEndpointConfig endpoint_config_name) ?w1))"
      by (simp add: split_beta)
  next
    fix y assume "fst (api sm (DeleteEndpointConfig endpoint_config_name) ?w1) = Inr y"
    then show "sdk_errors_surface sm (snd (api sm (DeleteEndpointConfig endpoint_config_name) ?w1))
          (case api sm (DeleteEndpointConfig endpoint_config_name) ?w1 of
             (Inl e, w2) \<Rightarrow> (Inl e, w2)
           | (Inr _, w2) \<Rightarrow>
               (case api sm (DeleteEndpoint endpoint_name) w2 of
                  (Inl e, w3) \<Rightarrow> (Inl e, w3)
                | (Inr _, w3) \<Rightarrow> (Inr (), w3)))"
      using surface_last [where sm = sm and w = "snd (api sm (DeleteEndpointConfig endpoint_config_name) ?w1)" and c = "DeleteEndpoint endpoint_name" and f = "\<lambda>_. ()"]
      by (simp add: split_beta)
  qed
  with first show "sdk_errors_surface sm ?w1 (delete_cell sm w)"
    by (simp add: delete_cell_def split_beta)
qed

lemma upsert_cell_surface:
  "sdk_errors_surface sm w (upsert_cell sm role w)"
  unfolding upsert_cell_def by (rule api_surface)

lemma invoke_cell_surface:
  "sdk_errors_surface sm w (invoke_cell sm fmt decode test_df w)"
proof (cases "drop_columns [''fraud''] test_df")
  case (Inl e)
  then show ?thesis by (simp add: invoke_cell_def surface_none)
next
  case (Inr dropped)
  let ?c = "InvokeEndpoint endpoint_name (to_csv fmt (iloc_head 5 dropped)) ''text/csv''"
  show ?thesis
  proof (rule surface_bind [where c = ?c, OF surjective_pairing])
    fix e assume "fst (api sm ?c w) = Inl e"
    then show "invoke_cell sm fmt decode test_df w = (Inl e, snd (api sm ?c w))"
      by (simp add: invoke_cell_def Inr split_beta)
  next
    fix x assume "fst (api sm ?c w) = Inr x"
    then have "snd (invoke_cell sm fmt decode test_df w) = snd (api sm ?c w)"
      by (simp add: invoke_cell_def Inr split_beta Let_def split: sum.split response.split)
    then show "sdk_errors_surface sm (snd (api sm ?c w)) (invoke_cell sm fmt decode test_df w)"
      by (metis surface_none prod.collapse)
  qed
qed

lemma describe_status_surface:
  "sdk_errors_surface sm w (describe_status sm w)"
  unfolding describe_status_eq
  by (rule surface_one [where c = "DescribeEndpoint endpoint_name"])
     (auto simp: status_seen_def)

lemma while_creating_surface:
  assumes "while_creating sm status w = Some out"
  shows "sdk_errors_surface sm w out"
proof (rule while_creating.raw_induct
    [where P = "\<lambda>sm status w out. sdk_errors_surface sm w out", OF _ assms])
  fix loop :: "service \<Rightarrow> string \<Rightarrow> world \<Rightarrow> ((error + string) \<times> world) option"
    and sm status w out
  assume IH: "\<And>sm status w out. loop sm status w = Some out \<Longrightarrow> sdk_errors_surface sm w out"
    and body: "(if status = ''Creating''
                then case describe_status sm
                       (time_sleep 60 (print (''Endpoint Status: '' @ status @ ''...'') w)) of
                     (Inl e, w1) \<Rightarrow> Some (Inl e, w1)
                   | (Inr status', w1) \<Rightarrow> loop sm status' w1
                else Some (Inr status, w)) = Some out"
  let ?w = "time_sleep 60 (print (''Endpoint Status: '' @ status @ ''...'') w)"
  have same: "calls ?w = calls w" by (simp add: time_sleep_def print_def)
  show "sdk_errors_surface sm w out"
  proof (cases "status = ''Creating''")
    case False
    with body show ?thesis by (auto intro: surface_none)
  next
    case True
    obtain a w1 where d: "describe_status sm ?w = (a, w1)" by (cases "describe_status sm ?w")
    have step: "sdk_errors_surface sm w (a, w1)"
      using describe_status_surface [of sm ?w] unfolding d surface_same_calls [OF same] .
    show ?thesis
    proof (cases a)
      case (Inl e)
      with body True d step show ?thesis by auto
    next
      case (Inr status')
      with body True d have "loop sm status' w1 = Some out" by simp
      then have "sdk_errors_surface sm w1 (fst out, snd out)" using IH by simp
      from surface_seq [OF step [unfolded Inr] this] show ?thesis by simp
    qed
  qed
qed

lemma wait_for_endpoint_surface:
  assumes "wait_for_endpoint sm w = Some out"
  shows "sdk_errors_surface sm w out"
proof -
  obtain a w1 where d: "describe_status sm w = (a, w1)" by (cases "describe_status sm w")
  with describe_status_surface [of sm w] have step: "sdk_errors_surface sm w (a, w1)" by simp
  show ?thesis
  proof (cases a)
    case (Inl e)
    with assms d step show ?thesis by (auto simp: wait_for_endpoint_def)
  next
    case (Inr status)
    with assms d obtain r w2 where loop: "while_creating sm status w1 = Some (r, w2)"
      by (auto simp: wait_for_endpoint_def split: option.splits)
    from surface_seq [OF step [unfolded Inr] while_creating_surface [OF loop]]
    have all: "sdk_errors_surface sm w (r, w2)" .
    show ?thesis
    proof (cases r)
      case (Inl e)
      with assms d Inr loop all show ?thesis by (auto simp: wait_for_endpoint_def)
    next
      case r: (Inr status')
      with assms d Inr loop have "out = (Inr status', print (''Endpoint Status: '' @ status') w2)"
        by (auto simp: wait_for_endpoint_def)
      moreover have "sdk_errors_surface sm w (Inr status', print (''Endpoint Status: '' @ status') w2)"
        using all r by (simp add: sdk_errors_surface_def print_def)
      ultimately show ?thesis by simp
    qed
  qed
qed

lemma deploy_cell_surface:
  assumes "deploy_cell sm w = Some out"
  shows "sdk_errors_surface sm w out"
proof -
  obtain a w1 where c: "create_endpoint_part sm w = (a, w1)"
    by (cases "create_endpoint_part sm w")
  with create_endpoint_part_surface [of sm w] have step: "sdk_errors_surface sm w (a, w1)"
    by simp
  show ?thesis
  proof (cases a)
    case (Inl e)
    with assms c have "out = (Inl e, w1)" by (simp add: deploy_cell_def)
    moreover from step Inl have "sdk_errors_surface sm w (Inl e :: error + string, w1)"
      by (simp add: sdk_errors_surface_def)
    ultimately show ?thesis by simp
  next
    case (Inr u)
    with assms c have "wait_for_endpoint sm w1 = Some out" by (simp add: deploy_cell_def)
    then have "sdk_errors_surface sm w1 (fst out, snd out)"
      using wait_for_endpoint_surface by simp
    from surface_seq [OF step [unfolded Inr] this] show ?thesis by simp
  qed
qed

lemma run_calls_surface:
  "sdk_errors_surface sm w (run_calls sm cs w)"
proof (induction cs arbitrary: w)
  case Nil
  show ?case by (simp add: surface_none)
next
  case (Cons c cs)
  show ?case
  proof (rule surface_bind [where c = c, OF surjective_pairing])
    fix e assume "fst (api sm c w) = Inl e"
    then show "run_calls sm (c # cs) w = (Inl e, snd (api sm c w))"
      by (simp add: split_beta)
  next
    fix x assume "fst (api sm c w) = Inr x"
    then show "sdk_errors_surface sm (snd (api sm c w)) (run_calls sm (c # cs) w)"
      using Cons.IH [of "snd (api sm c w)"] by (simp add: split_beta)
  qed
qed

lemma run_calls_first_error:
  assumes "i < length cs"
      and "\<forall>j<i. \<forall>e'. sm (length (calls w) + j) (cs ! j) \<noteq> Inl e'"
      and "sm (length (calls w) + i) (cs ! i) = Inl e"
  shows "run_calls sm cs w = (Inl e, w\<lparr>calls := calls w @ take (Suc i) cs\<rparr>)"
  using assms
proof (induction cs arbitrary: i w)
  case Nil
  then show ?case by simp
next
  case (Cons c cs)
  show ?case
  proof (cases i)
    case 0
    with Cons.prems show ?thesis by (simp add: api_def)
  next
    case (Suc k)
    from Cons.prems(2) Suc obtain x where x: "sm (length (calls w)) c = Inr x"
      by (cases "sm (length (calls w)) c") (auto dest: spec [of _ 0])
    let ?w = "w\<lparr>calls := calls w @ [c]\<rparr>"
    have "k < length cs" using Cons.prems(1) Suc by simp
    moreover have "\<forall>j<k. \<forall>e'. sm (length (calls ?w) + j) (cs ! j) \<noteq> Inl e'"
    proof (intro allI impI)
      fix j e' assume "j < k"
      then have "Suc j < i" using Suc by simp
      with Cons.prems(2) have "sm (length (calls w) + Suc j) ((c # cs) ! Suc j) \<noteq> Inl e'"
        by blast
      then show "sm (length (calls ?w) + j) (cs ! j) \<noteq> Inl e'" by simp
    qed
    moreover have "sm (length (calls ?w) + k) (cs ! k) = Inl e"
      using Cons.prems(3) Suc by simp
    ultimately have "run_calls sm cs ?w = (Inl e, ?w\<lparr>calls := calls ?w @ take (Suc k) cs\<rparr>)"
      by (rule Cons.IH)
    then show ?thesis using x Suc by (simp add: api_def)
  qed
qed

lemma run_calls_no_error:
  assumes "\<forall>j<length cs. \<forall>e'. sm (length (calls w) + j) (cs ! j) \<noteq> Inl e'"
  shows "run_calls sm cs w = (Inr (), w\<lparr>calls := calls w @ cs\<rparr>)"
  using assms
proof (induction cs arbitrary: w)
  case Nil
  show ?case by simp
next
  case (Cons c cs)
  from Cons.prems obtain x where x: "sm (length (calls w)) c = Inr x"
    by (cases "sm (length (calls w)) c") (auto dest: spec [of _ 0])
  let ?w = "w\<lparr>calls := calls w @ [c]\<rparr>"
  have "\<forall>j<length cs. \<forall>e'. sm (length (calls ?w) + j) (cs ! j) \<noteq> Inl e'"
  proof (intro allI impI)
    fix j e' assume "j < length cs"
    then have "Suc j < length (c # cs)" by simp
    with Cons.prems have "sm (length (calls w) + Suc j) ((c # cs) ! Suc j) \<noteq> Inl e'"
      by blast
    then show "sm (length (calls ?w) + j) (cs ! j) \<noteq> Inl e'" by simp
  qed
  then have "run_calls sm cs ?w = (Inr (), ?w\<lparr>calls := calls ?w @ cs\<rparr>)"
    by (rule Cons.IH)
  then show ?case using x by (simp add: api_def)
qed

lemma surface_after_call:
  assumes "\<And>w1. sdk_errors_surface sm w1 (rest w1)"
  shows "sdk_errors_surface sm w
           (case api sm c w of (Inl e, w1) \<Rightarrow> (Inl e, w1) | (Inr x, w1) \<Rightarrow> rest w1)"
proof (rule surface_bind [where c = c, OF surjective_pairing])
  fix e assume "fst (api sm c w) = Inl e"
  then show "(case api sm c w of (Inl e, w1) \<Rightarrow> (Inl e, w1) | (Inr x, w1) \<Rightarrow> rest w1)
             = (Inl e, snd (api sm c w))"
    by (simp add: split_beta)
next
  fix x assume "fst (api sm c w) = Inr x"
  then show "sdk_errors_surface sm (snd (api sm c w))
               (case api sm c w of (Inl e, w1) \<Rightarrow> (Inl e, w1) | (Inr x, w1) \<Rightarrow> rest w1)"
    using assms [of "snd (api sm c w)"] by (simp add: split_beta)
qed

lemma serverless_setup_cell_surface:
  "sdk_errors_surface sm w (serverless_setup_cell sm w)"
  unfolding serverless_setup_cell_def by (rule run_calls_surface)

lemma model_cell_surface:
  "sdk_errors_surface sm w (model_cell sm training_image sagemaker_role w)"
  unfolding model_cell_def
  by (rule surface_after_call) (rule create_model_cell_surface)

lemma predict_cell_surface:
  "sdk_errors_surface sm w (predict_cell sm fmt decode test_df w)"
  unfolding predict_cell_def
  by (rule surface_after_call) (rule invoke_cell_surface)

lemma surface_then_print:
  assumes "sdk_errors_surface sm w (run_calls sm cs w)"
  shows "sdk_errors_surface sm w
           (case run_calls sm cs w of
              (Inl e, w1) \<Rightarrow> (Inl e, w1)
            | (Inr u, w1) \<Rightarrow> (Inr (), print s w1))"
  using assms
  by (cases "run_calls sm cs w"; cases "fst (run_calls sm cs w)")
     (auto simp: sdk_errors_surface_def print_def)

lemma upload_input_cell_surface:
  "sdk_errors_surface sm w (upload_input_cell sm input_data_uri w)"
  unfolding upload_input_cell_def by (rule surface_then_print) (rule run_calls_surface)

lemma upload_batch_cell_surface:
  "sdk_errors_surface sm w (upload_batch_cell sm batch_data_uri w)"
  unfolding upload_batch_cell_def by (rule surface_then_print) (rule run_calls_surface)

lemma deploy_cell_None:
  assumes "deploy_cell sm w = None"
  shows "\<exists>w1. create_endpoint_part sm w = (Inr (), w1)
              \<and> (\<forall>j. status_seen sm (length (calls w1) + j) = Inr ''Creating'')"
proof -
  obtain a w1 where c: "create_endpoint_part sm w = (a, w1)"
    by (cases "create_endpoint_part sm w")
  show ?thesis
  proof (cases a)
    case (Inl e)
    with assms c show ?thesis by (simp add: deploy_cell_def)
  next
    case (Inr u)
    with assms c have "wait_for_endpoint sm w1 = None" by (simp add: deploy_cell_def)
    then have "\<not> (\<exists>j. status_seen sm (length (calls w1) + j) \<noteq> Inr ''Creating'')"
      using wait_returns_iff [of sm w1] by simp
    then have "\<forall>j. status_seen sm (length (calls w1) + j) = Inr ''Creating''" by simp
    with c Inr show ?thesis by simp
  qed
qed

lemma invoke_cell_broken_body:
  assumes "drop_columns [''fraud''] test_df = Inr dropped"
      and "sm (length (calls w))
              (InvokeEndpoint endpoint_name (to_csv fmt (iloc_head 5 dropped)) ''text/csv'')
             = Inr (BrokenBody e)"
  shows "invoke_cell sm fmt decode test_df w =
           (Inl e, w\<lparr>calls := calls w @
              [InvokeEndpoint endpoint_name (to_csv fmt (iloc_head 5 dropped)) ''text/csv'']\<rparr>)"
  using assms by (simp add: invoke_cell_def api_def)

text \<open>
  C8. In every code cell of the two notebooks that calls the SDKs, an exception raised by
  a call ends the cell at that call: the cell's outcome is that very exception, and the
  call is the last one made (it is not repeated and nothing follows it). This holds for
  every behaviour of the SDKs and every starting world. The cells are total functions
  but for the cell with the polling loop; that cell fails to end only when the endpoint
  part before the loop ended normally and every describe call answered \<open>Creating\<close>, so
  no exception is lost in a run that does not end. For a cell that is a sequence of
  calls, the exception of the first call that raises is the outcome, after exactly that
  many calls; and a reply to the invocation whose body raises when read makes the cell
  end with that exception.
\<close>

theorem sdk_errors_propagate:
  "sdk_errors_surface sm w (serverless_setup_cell sm w)
   \<and> sdk_errors_surface sm w (model_cell sm training_image sagemaker_role w)
   \<and> sdk_errors_surface sm w (create_model_cell sm training_image sagemaker_role w)
   \<and> sdk_errors_surface sm w (create_endpoint_config_cell sm w)
   \<and> (\<forall>out. deploy_cell sm w = Some out \<longrightarrow> sdk_errors_surface sm w out)
   \<and> (deploy_cell sm w = None \<longrightarrow>
         (\<exists>w1. create_endpoint_part sm w = (Inr (), w1)
               \<and> (\<forall>j. status_seen sm (length (calls w1) + j) = Inr ''Creating'')))
   \<and> sdk_errors_surface sm w (predict_cell sm fmt decode test_df w)
   \<and> sdk_errors_surface sm w (invoke_cell sm fmt decode test_df w)
   \<and> (drop_columns [''fraud''] test_df = Inr dropped
        \<and> sm (length (calls w))
              (InvokeEndpoint endpoint_name (to_csv fmt (iloc_head 5 dropped)) ''text/csv'')
            = Inr (BrokenBody e)
        \<longrightarrow> invoke_cell sm fmt decode test_df w =
              (Inl e, w\<lparr>calls := calls w @
                 [InvokeEndpoint endpoint_name (to_csv fmt (iloc_head 5 dropped)) ''text/csv'']\<rparr>))
   \<and> sdk_errors_surface sm w (delete_cell sm w)
   \<and> sdk_errors_surface sm w (upload_input_cell sm input_data_uri w)
   \<and> sdk_errors_surface sm w (upload_batch_cell sm batch_data_uri w)
   \<and> (\<forall>cs \<in> set pipeline_code_cells. sdk_errors_surface sm w (run_calls sm cs w))
   \<and> (\<forall>cs \<in> set pipeline_code_cells. \<forall>i<length cs.
         (\<forall>j<i. \<forall>e'. sm (length (calls w) + j) (cs ! j) \<noteq> Inl e')
         \<and> sm (length (calls w) + i) (cs ! i) = Inl e
         \<longrightarrow> run_calls sm cs w = (Inl e, w\<lparr>calls := calls w @ take (Suc i) cs\<rparr>))
   \<and> sdk_errors_surface sm w (upsert_cell sm role w)"
proof (intro conjI allI impI ballI)
  show "sdk_errors_surface sm w (serverless_setup_cell sm w)"
    by (rule serverless_setup_cell_surface)
  show "sdk_errors_surface sm w (model_cell sm training_image sagemaker_role w)"
    by (rule model_cell_surface)
  show "sdk_errors_surface sm w (create_model_cell sm training_image sagemaker_role w)"
    by (rule create_model_cell_surface)
  show "sdk_errors_surface sm w (create_endpoint_config_cell sm w)"
    by (rule create_endpoint_config_cell_surface)
  show "sdk_errors_surface sm w out" if "deploy_cell sm w = Some out" for out
    using that by (rule deploy_cell_surface)
  show "\<exists>w1. create_endpoint_part sm w = (Inr (), w1)
               \<and> (\<forall>j. status_seen sm (length (calls w1) + j) = Inr ''Creating'')"
    if "deploy_cell sm w = None"
    using that by (rule deploy_cell_None)
  show "sdk_errors_surface sm w (predict_cell sm fmt decode test_df w)"
    by (rule predict_cell_surface)
  show "sdk_errors_surface sm w (invoke_cell sm fmt decode test_df w)"
    by (rule invoke_cell_surface)
  show "invoke_cell sm fmt decode test_df w =
              (Inl e, w\<lparr>calls := calls w @
                 [InvokeEndpoint endpoint_name (to_csv fmt (iloc_head 5 dropped)) ''text/csv'']\<rparr>)"
    if "drop_columns [''fraud''] test_df = Inr dropped
        \<and> sm (length (calls w))
              (InvokeEndpoint endpoint_name (to_csv fmt (iloc_head 5 dropped)) ''text/csv'')
            = Inr (BrokenBody e)"
    using that by (intro invoke_cell_broken_body) simp_all
  show "sdk_errors_surface sm w (delete_cell sm w)"
    by (rule delete_cell_surface)
  show "sdk_errors_surface sm w (upload_input_cell sm input_data_uri w)"
    by (rule upload_input_cell_surface)
  show "sdk_errors_surface sm w (upload_batch_cell sm batch_data_uri w)"
    by (rule upload_batch_cell_surface)
  show "sdk_errors_surface sm w (run_calls sm cs w)" for cs
    by (rule run_calls_surface)
  show "run_calls sm cs w = (Inl e, w\<lparr>calls := calls w @ take (Suc i) cs\<rparr>)"
    if "i < length cs"
      and "(\<forall>j<i. \<forall>e'. sm (length (calls w) + j) (cs ! j) \<noteq> Inl e')
           \<and> sm (length (calls w) + i) (cs ! i) = Inl e" for cs i
    using that by (intro run_calls_first_error) simp_all
  show "sdk_errors_surface sm w (upsert_cell sm role w)"
    by (rule upsert_cell_surface)
qed

theorem sdk_errors_propagate_witness:
  "delete_cell (\<lambda>i c. if i = 1 then Inl (ClientError ''ThrottlingException'') else Inr Done)
       \<lparr>calls = [], stdout = [], sleeps = []\<rparr>
     = (Inl (ClientError ''ThrottlingException''),
        \<lparr>calls = [DeleteModel ''fraud-detect-xgb'',
                   DeleteEndpointConfig ''fraud-detect-xgb-serverless-epconfig''],
         stdout = [], sleeps = []\<rparr>)
   \<and> sdk_errors_surface
       (\<lambda>i c. if i = 1 then Inl (ClientError ''ThrottlingException'') else Inr Done)
       \<lparr>calls = [], stdout = [], sleeps = []\<rparr>
       (Inl (ClientError ''ThrottlingException'') :: error + unit,
        \<lparr>calls = [DeleteModel ''fraud-detect-xgb'',
                   DeleteEndpointConfig ''fraud-detect-xgb-serverless-epconfig''],
         stdout = [], sleeps = []\<rparr>)
   \<and> run_calls (\<lambda>i c. if i = 1 then Inl (ClientError ''ThrottlingException'') else Inr Done)
       [SdkCall ''sagemaker.session.Session'' [],
        SdkCall ''sagemaker.get_execution_role'' [],
        SdkCall ''PipelineSession'' [],
        SdkCall ''sagemaker_session.default_bucket'' []]
       \<lparr>calls = [], stdout = [], sleeps = []\<rparr>
     = (Inl (ClientError ''ThrottlingException''),
        \<lparr>calls = [SdkCall ''sagemaker.session.Session'' [],
                   SdkCall ''sagemaker.get_execution_role'' []],
         stdout = [], sleeps = []\<rparr>)"
proof -
  let ?sm = "(\<lambda>i c. if i = 1 then Inl (ClientError ''ThrottlingException'') else Inr Done)
               :: service"
  let ?w = "\<lparr>calls = [], stdout = [], sleeps = []\<rparr>"
  let ?cs = "[SdkCall ''sagemaker.session.Session'' [],
              SdkCall ''sagemaker.get_execution_role'' [],
              SdkCall ''PipelineSession'' [],
              SdkCall ''sagemaker_session.default_bucket'' []]"
  note all = sdk_errors_propagate [of ?sm ?w _ _ _ _ _ _ "ClientError ''ThrottlingException''"]
  have run: "delete_cell ?sm ?w
     = (Inl (ClientError ''ThrottlingException''),
        \<lparr>calls = [DeleteModel ''fraud-detect-xgb'',
                   DeleteEndpointConfig ''fraud-detect-xgb-serverless-epconfig''],
         stdout = [], sleeps = []\<rparr>)"
    by (simp add: delete_cell_def api_def model_name_def endpoint_config_name_def)
  have surf: "sdk_errors_surface ?sm ?w (delete_cell ?sm ?w)"
    by (rule all [THEN conjunct2, THEN conjunct2, THEN conjunct2, THEN conjunct2, THEN conjunct2, THEN conjunct2, THEN conjunct2, THEN conjunct2, THEN conjunct2, THEN conjunct1])
  have cell: "?cs \<in> set pipeline_code_cells"
    by (simp add: pipeline_code_cells_def)
  note errors = all [THEN conjunct2, THEN conjunct2, THEN conjunct2, THEN conjunct2, THEN conjunct2, THEN conjunct2, THEN conjunct2, THEN conjunct2, THEN conjunct2, THEN conjunct2, THEN conjunct2, THEN conjunct2, THEN conjunct2, THEN conjunct1]
  from errors [rule_format, OF cell, of 1]
  have "run_calls ?sm ?cs ?w
          = (Inl (ClientError ''ThrottlingException''), ?w\<lparr>calls := calls ?w @ take (Suc 1) ?cs\<rparr>)"
    by simp
  then have first: "run_calls ?sm ?cs ?w
     = (Inl (ClientError ''ThrottlingException''),
        \<lparr>calls = [SdkCall ''sagemaker.session.Session'' [],
                   SdkCall ''sagemaker.get_execution_role'' []],
         stdout = [], sleeps = []\<rparr>)"
    by simp
  from surf run first show ?thesis by simp
qed

subsection \<open>The request and the response of the invocation\<close>

lemma split_at_nonempty: "split_at sep s \<noteq> []"
  by (induction s) (auto split: list.split)

lemma length_split_at: "length (split_at sep s) = Suc (length (filter sep s))"
proof (induction s)
  case Nil
  show ?case by simp
next
  case (Cons x xs)
  then show ?case using split_at_nonempty [of sep xs]
    by (cases "split_at sep xs") auto
qed

lemma split_at_no_separator:
  "p \<in> set (split_at sep s) \<Longrightarrow> c \<in> set p \<Longrightarrow> \<not> sep c"
proof (induction s arbitrary: p)
  case Nil
  then show ?case by simp
next
  case (Cons x xs)
  show ?case
  proof (cases "sep x")
    case True
    with Cons show ?thesis by auto
  next
    case False
    from split_at_nonempty [of sep xs] obtain q qs where q: "split_at sep xs = q # qs"
      by (cases "split_at sep xs") auto
    with False Cons.prems have "p = x # q \<or> p \<in> set qs" by simp
    then show ?thesis
    proof
      assume "p = x # q"
      with Cons.prems(2) have "c = x \<or> c \<in> set q" by simp
      then show ?thesis using False Cons.IH [of q] q by auto
    next
      assume "p \<in> set qs"
      then show ?thesis using Cons.IH [of p] Cons.prems(2) q by simp
    qed
  qed
qed

lemma map_of_zip_column:
  "label \<in> set cols \<Longrightarrow> length r = length cols \<Longrightarrow>
   map_of (zip cols r) label = Some (r ! length (takeWhile (\<lambda>c. c \<noteq> label) cols))"
proof (induction cols arbitrary: r)
  case Nil
  then show ?case by simp
next
  case (Cons c cols)
  then obtain v vs where r: "r = v # vs" by (cases r) auto
  with Cons show ?case by auto
qed

lemma those_map_Some: "those (map (\<lambda>x. Some (f x)) xs) = Some (map f xs)"
  by (induction xs) simp_all

lemma get_column_values:
  assumes "label \<in> set (columns df)"
      and "\<forall>r \<in> set (rows df). length r = length (columns df)"
  shows "get_column label df =
           Inr (map (\<lambda>r. r ! length (takeWhile (\<lambda>c. c \<noteq> label) (columns df))) (rows df))"
proof -
  have eq: "map (\<lambda>r. map_of (zip (columns df) r) label) (rows df)
        = map (\<lambda>r. Some (r ! length (takeWhile (\<lambda>c. c \<noteq> label) (columns df)))) (rows df)"
    using assms by (intro map_cong refl map_of_zip_column) auto
  show ?thesis
    by (simp only: get_column_def eq those_map_Some assms(1) if_True option.case)
qed

text \<open>
  C7. When the test frame has a column \<open>fraud\<close>, the cell makes one call, the invocation
  of the endpoint with content type \<open>text/csv\<close>, whose body is the first five rows of
  the frame without the \<open>fraud\<close> column, one line per row, the fields separated by
  commas, with no header line and no index column. When the service answers with a body
  that decodes as UTF-8, the decoded text is split at every comma and every newline, and
  the first five pieces are paired, position by position, with the \<open>fraud\<close> values of
  the first five rows.
\<close>

theorem invoke_request_and_response:
  assumes cols: "''fraud'' \<in> set (columns test_df)"
      and rect: "\<forall>r \<in> set (rows test_df). length r = length (columns test_df)"
      and sample: "test_sample =
                     take 5 (map (\<lambda>r. map snd (filter (\<lambda>(c, v). c \<noteq> ''fraud'')
                                                   (zip (columns test_df) r)))
                                 (rows test_df))"
      and payload: "payload = concat (map (\<lambda>r. str_join '','' (map fmt r) @ [CHR 0x0A]) test_sample)"
      and labels: "label =
                     take 5 (map (\<lambda>r. r ! length (takeWhile (\<lambda>c. c \<noteq> ''fraud'') (columns test_df)))
                                 (rows test_df))"
      and reply: "sm (length (calls w)) (InvokeEndpoint endpoint_name payload ''text/csv'')
                    = Inr (Body result)"
      and utf8: "decode result = Inr text"
      and pieces: "prediction = take 5 (split_at (\<lambda>c. c = CHR '','' \<or> c = CHR 0x0A) text)"
      and same: "length prediction = length label"
  shows "invoke_cell sm fmt decode test_df w =
           (Inr (zip prediction label),
            w\<lparr>calls := calls w @ [InvokeEndpoint endpoint_name payload ''text/csv'']\<rparr>)
         \<and> length (split_at (\<lambda>c. c = CHR '','' \<or> c = CHR 0x0A) text)
             = Suc (length (filter (\<lambda>c. c = CHR '','' \<or> c = CHR 0x0A) text))
         \<and> (\<forall>p \<in> set prediction. CHR '','' \<notin> set p \<and> CHR 0x0A \<notin> set p)"
proof (intro conjI ballI)
  show "length (split_at (\<lambda>c. c = CHR '','' \<or> c = CHR 0x0A) text)
          = Suc (length (filter (\<lambda>c. c = CHR '','' \<or> c = CHR 0x0A) text))"
    by (rule length_split_at)
next
  fix p assume "p \<in> set prediction"
  then have p: "p \<in> set (split_at (\<lambda>c. c = CHR '','' \<or> c = CHR 0x0A) text)"
    unfolding pieces by (rule in_set_takeD)
  show "CHR '','' \<notin> set p"
    using split_at_no_separator [OF p, of "CHR '',''"] by auto
  show "CHR 0x0A \<notin> set p"
    using split_at_no_separator [OF p, of "CHR 0x0A"] by auto
next
  have dropped: "drop_columns [''fraud''] test_df =
      Inr \<lparr>columns = filter (\<lambda>c. c \<noteq> ''fraud'') (columns test_df),
           rows = map (\<lambda>r. map snd (filter (\<lambda>(c, v). c \<noteq> ''fraud'') (zip (columns test_df) r)))
                      (rows test_df)\<rparr>"
    using cols by (simp add: drop_columns_def)
  have csv: "to_csv fmt (iloc_head 5
      \<lparr>columns = filter (\<lambda>c. c \<noteq> ''fraud'') (columns test_df),
       rows = map (\<lambda>r. map snd (filter (\<lambda>(c, v). c \<noteq> ''fraud'') (zip (columns test_df) r)))
                  (rows test_df)\<rparr>) = payload"
    unfolding payload sample by (simp add: to_csv_def iloc_head_def)
  have call: "api sm (InvokeEndpoint endpoint_name payload ''text/csv'') w =
                (Inr (Body result),
                 w\<lparr>calls := calls w @ [InvokeEndpoint endpoint_name payload ''text/csv'']\<rparr>)"
    using reply by (simp add: api_def)
  have col: "get_column ''fraud'' test_df =
               Inr (map (\<lambda>r. r ! length (takeWhile (\<lambda>c. c \<noteq> ''fraud'') (columns test_df)))
                        (rows test_df))"
    using cols rect by (rule get_column_values)
  show "invoke_cell sm fmt decode test_df w =
           (Inr (zip prediction label),
            w\<lparr>calls := calls w @ [InvokeEndpoint endpoint_name payload ''text/csv'']\<rparr>)"
    unfolding invoke_cell_def dropped sum.case Let_def csv call prod.case response.case utf8 col
      re_split_comma_newline_def pieces [symmetric] labels [symmetric]
    using same by simp
qed

theorem invoke_request_and_response_witness:
  "invoke_cell (\<lambda>i c. Inr (Body ''0.1,0.9'')) (\<lambda>s. s) Inr
       \<lparr>columns = [''fraud'', ''age'', ''claim''],
        rows = [[''0'', ''41'', ''1500.5''], [''1'', ''23'', ''70'']]\<rparr>
       \<lparr>calls = [], stdout = [], sleeps = []\<rparr>
     = (Inr [(''0.1'', ''0''), (''0.9'', ''1'')],
        \<lparr>calls = [InvokeEndpoint ''fraud-detect-xgb-serverless-ep''
                    (''41,1500.5'' @ [CHR 0x0A] @ ''23,70'' @ [CHR 0x0A]) ''text/csv''],
         stdout = [], sleeps = []\<rparr>)"
proof -
  let ?df = "\<lparr>columns = [''fraud'', ''age'', ''claim''],
              rows = [[''0'', ''41'', ''1500.5''], [''1'', ''23'', ''70'']]\<rparr>"
  let ?w = "\<lparr>calls = [], stdout = [], sleeps = []\<rparr>"
  from invoke_request_and_response
    [of ?df "[[''41'', ''1500.5''], [''23'', ''70'']]"
        "''41,1500.5'' @ [CHR 0x0A] @ ''23,70'' @ [CHR 0x0A]" "\<lambda>s. s" "[''0'', ''1'']"
        "\<lambda>i c. Inr (Body ''0.1,0.9'')" ?w "''0.1,0.9''" Inr "''0.1,0.9''" "[''0.1'', ''0.9'']"]
  show ?thesis
    by (simp add: endpoint_name_def model_name_def)
qed

end
